theory Spec2Isabelle
  imports Main "HOL-Library.AList"
begin

section \<open>Values, JSON text and the platform\<close>

text \<open>
  The hook \<open>useFormPersistence\<close> (the version with transforms, \<^verbatim>\<open>src/unnamed/part_001\<close>)
  keeps a form's fields in two text tiers (sessionStorage, localStorage) and its files in
  IndexedDB. The model is sequential: every operation of the hook runs to its end before the
  next one starts, and a callback handed to the platform (the zero-delay timer of
  \<open>handlePageClose\<close>) is an entry of a queue that is run as a step of its own. The
  framework's watcher, which calls \<open>saveTextData\<close> after a mutation of the form, is the
  caller of \<open>saveTextData\<close> and is not a part of the model. The line numbers below are those
  of \<^verbatim>\<open>src/unnamed/part_001\<close>.
\<close>

text \<open>
  JavaScript values as far as the hook looks at them. \<open>Num\<close> are the integral numbers,
  \<open>NaN\<close> the number that is none. A string is \<open>Str s\<close>, or \<open>Iso t\<close> when it is the
  text that \<open>new Date(t).toISOString()\<close> writes for the instant \<open>t\<close> (milliseconds since the
  epoch): the model keeps the instant and not the characters. An object is the list of its
  own properties in enumeration order.
\<close>

datatype jsval =
    Undefined
  | Null
  | Bool bool
  | Num int
  | NaN
  | Str string
  | Iso int
  | Arr "jsval list"
  | Obj "(string \<times> jsval) list"

type_synonym obj = "(string \<times> jsval) list"

text \<open>Property read \<open>o[k]\<close>, property write \<open>o[k] = v\<close>, \<open>delete o[k]\<close> and
  \<open>Object.assign(target, source)\<close>.\<close>

definition get_prop :: "obj \<Rightarrow> string \<Rightarrow> jsval" where
  "get_prop ob k = (case map_of ob k of None \<Rightarrow> Undefined | Some v \<Rightarrow> v)"

definition set_prop :: "string \<Rightarrow> jsval \<Rightarrow> obj \<Rightarrow> obj" where
  "set_prop k v ob = AList.update k v ob"

definition delete_prop :: "string \<Rightarrow> obj \<Rightarrow> obj" where
  "delete_prop k ob = AList.delete k ob"

definition Object_assign :: "obj \<Rightarrow> obj \<Rightarrow> obj" where
  "Object_assign target source = fold (\<lambda>(k, v) t. set_prop k v t) source target"

text \<open>The values that \<open>!v\<close> takes for false.\<close>

fun falsy :: "jsval \<Rightarrow> bool" where
  "falsy Undefined = True"
| "falsy Null = True"
| "falsy (Bool b) = (\<not> b)"
| "falsy (Num n) = (n = 0)"
| "falsy NaN = True"
| "falsy (Str s) = (s = [])"
| "falsy (Iso t) = False"
| "falsy (Arr xs) = False"
| "falsy (Obj ps) = False"

text \<open>
  \<open>new Date(v).getTime()\<close>, with \<open>None\<close> for NaN. The text of an instant reads back as the
  instant, a number is the instant itself when it is in the range of dates. No \<open>Str\<close> is
  taken to spell a date, and an array or an object is taken for an invalid date (the platform
  would parse their string conversion).
\<close>

fun Date_getTime :: "jsval \<Rightarrow> int option" where
  "Date_getTime (Iso t) = Some t"
| "Date_getTime (Num n) = (if \<bar>n\<bar> \<le> 8640000000000000 then Some n else None)"
| "Date_getTime (Bool b) = Some (if b then 1 else 0)"
| "Date_getTime Null = Some 0"
| "Date_getTime Undefined = None"
| "Date_getTime NaN = None"
| "Date_getTime (Str s) = None"
| "Date_getTime (Arr xs) = None"
| "Date_getTime (Obj ps) = None"

text \<open>
  What \<open>JSON.parse(JSON.stringify(v))\<close> yields: a property whose value is undefined is left
  out, an undefined array element and NaN are written as null, every other value is kept.
\<close>

fun json_value :: "jsval \<Rightarrow> jsval"
  and json_elems :: "jsval list \<Rightarrow> jsval list"
  and json_members :: "obj \<Rightarrow> obj" where
  "json_value Undefined = Null"
| "json_value Null = Null"
| "json_value (Bool b) = Bool b"
| "json_value (Num n) = Num n"
| "json_value NaN = Null"
| "json_value (Str s) = Str s"
| "json_value (Iso t) = Iso t"
| "json_value (Arr xs) = Arr (json_elems xs)"
| "json_value (Obj ps) = Obj (json_members ps)"
| "json_elems [] = []"
| "json_elems (x # xs) = json_value x # json_elems xs"
| "json_members [] = []"
| "json_members (p # ps) =
     (if snd p = Undefined then json_members ps else (fst p, json_value (snd p)) # json_members ps)"

text \<open>
  A string held by a storage tier: \<open>Json ob\<close> is the text of a JSON object, kept as the
  object that \<open>JSON.parse\<close> reads from it; \<open>Chars s\<close> is any other text, for which
  \<open>JSON.parse\<close> is taken to throw (the hook stores JSON objects under its data keys and
  the text \<open>true\<close> under its marker key).
\<close>

datatype storage_string = Json obj | Chars string

datatype tier = Session | Local

text \<open>
  Errors as values. \<open>Thrown m\<close> is what a transform hook throws, with message \<open>m\<close>;
  \<open>DeleteOldFilesFailed e\<close> is the error in which \<open>deleteOldFiles\<close> wraps the message of
  \<open>e\<close>; \<open>SecurityError\<close>, \<open>QuotaExceededError\<close>, \<open>NotReadableError\<close> and
  \<open>SyntaxError\<close> are the platform's.
\<close>

datatype error =
    DbNotInitialized
  | DbInitFailed "string option"
  | InvalidSaveArguments
  | DeleteOldFilesFailed error
  | SavedFileNotFound nat
  | AddFileFailed error
  | Thrown string
  | SyntaxError
  | SecurityError
  | QuotaExceededError
  | NotReadableError

text \<open>The context strings that the hook passes to \<open>handleError\<close>, one constructor for
  each literal of the source; the two field contexts carry the field's name.\<close>

datatype ctx =
    CtxRestoreSession
  | CtxRestoreLocal
  | CtxRestoreFiles
  | CtxRestoreData
  | CtxSaveText
  | CtxSaveFiles
  | CtxClearStorage
  | CtxCleanNormalClose
  | CtxInit
  | CtxFieldBeforeSave string
  | CtxGlobalBeforeSave
  | CtxFieldAfterRestore string
  | CtxGlobalAfterRestore

definition JSON_stringify :: "obj \<Rightarrow> storage_string" where
  "JSON_stringify ob = Json (json_members ob)"

fun JSON_parse :: "storage_string \<Rightarrow> error + obj" where
  "JSON_parse (Json ob) = Inr ob"
| "JSON_parse (Chars s) = Inl SyntaxError"

section \<open>Types of the hook\<close>

record StoredFile =
  fileId :: nat
  formId :: string
  fieldName :: string
  fileName :: string
  fileType :: string
  fileSize :: nat
  lastModified :: int
  data :: "nat list"
  savedTime :: int

text \<open>A \<open>File\<close> of the platform; \<open>file_bytes\<close> is \<open>None\<close> when its FileReader ends
  in an error.\<close>

record File =
  file_name :: string
  file_type :: string
  file_size :: nat
  file_lastModified :: int
  file_bytes :: "nat list option"

text \<open>\<open>UploadProgress\<close> without its \<open>percent\<close>, which is a rounded floating-point
  quotient.\<close>

record UploadProgress =
  progressField :: string
  total :: nat
  loaded :: nat

datatype ErrorLevel = LevelNone | Basic | Detailed

text \<open>A hook returns its result or throws. The global hooks take and return the whole
  record, a field's hooks one value.\<close>

record 'a DataTransformMiddleware =
  beforeSave :: "('a \<Rightarrow> error + 'a) option"
  afterRestore :: "('a \<Rightarrow> error + 'a) option"

text \<open>The arguments of \<open>useFormPersistence\<close> that stay fixed: the form id and the options
  (\<open>onError\<close> tells whether a callback was given; what it receives is kept in
  \<open>reported\<close>).\<close>

record config =
  form :: string
  fileFields :: "string list"
  clearOnClose :: bool
  dataExpiryMs :: int
  errorLevel :: ErrorLevel
  onError :: bool

datatype event = SetItem tier string storage_string | RemoveItem tier string

datatype console_line = ConsoleError ctx error | ConsoleWarn ctx error

datatype visibility = Visible | Hidden

datatype task = MirrorCloseMarker

text \<open>The object store \<open>form_files\<close>: its records in key order, the key generator, and
  the number of payload bytes after which \<open>add\<close> fails.\<close>

record object_store =
  records :: "StoredFile list"
  keygen :: nat
  capacity :: nat

text \<open>
  The state. The platform: the clock \<open>now\<close> (milliseconds); the two storage tiers, with
  \<open>denied\<close> when every access to them throws a SecurityError and \<open>session_full\<close>,
  \<open>local_full\<close> when \<open>setItem\<close> throws a QuotaExceededError; \<open>trace\<close>, the log of the
  writes that succeeded, oldest first; the page's \<open>visibilityState\<close>; the queue \<open>timers\<close>
  of the callbacks given to \<open>setTimeout\<close>; the object store of IndexedDB and
  \<open>indexedDB_open_error\<close>, which is the error that opening the database ends in, if it does
  (with a message or without one); the console. The module: \<open>isInitialized\<close> of the one
  \<open>fileStorage\<close> (lines 54-56, 242). One hook instance: what \<open>onError\<close> received
  (\<open>reported\<close>), and its refs (lines 262-268, 394-407). The error state is the pair of context
  and error from which \<open>handleError\<close> builds its message.
\<close>

record state =
  now :: int
  denied :: bool
  session_full :: bool
  local_full :: bool
  sessionStorage :: "string \<rightharpoonup> storage_string"
  localStorage :: "string \<rightharpoonup> storage_string"
  trace :: "event list"
  visibilityState :: visibility
  timers :: "task list"
  indexedDB :: object_store
  indexedDB_open_error :: "string option option"
  console :: "console_line list"
  reported :: "(error \<times> ctx) list"
  isInitialized :: bool
  currentMiddleware :: "obj DataTransformMiddleware"
  currentFieldTransforms :: "string \<rightharpoonup> jsval DataTransformMiddleware"
  formData :: obj
  fileData :: "(string \<times> StoredFile list) list"
  hasUnsavedChanges :: bool
  uploadProgress :: "UploadProgress option"
  error :: "(ctx \<times> error) option"

section \<open>Storage tiers\<close>

text \<open>The keys (lines 24, 409-414) and \<open>getItem\<close>, \<open>setItem\<close>, \<open>removeItem\<close> of a tier.\<close>

definition STORAGE_PREFIX :: string where
  "STORAGE_PREFIX = ''form_persistence_''"

definition storageKey :: "config \<Rightarrow> string" where
  "storageKey cfg = STORAGE_PREFIX @ form cfg"

definition sessionKey :: "config \<Rightarrow> string" where
  "sessionKey cfg = STORAGE_PREFIX @ form cfg @ ''_session''"

definition normalCloseKey :: "config \<Rightarrow> string" where
  "normalCloseKey cfg = STORAGE_PREFIX @ form cfg @ ''_normal_close''"

fun items :: "tier \<Rightarrow> state \<Rightarrow> (string \<rightharpoonup> storage_string)" where
  "items Session s = sessionStorage s"
| "items Local s = localStorage s"

fun put_items :: "tier \<Rightarrow> (string \<rightharpoonup> storage_string) \<Rightarrow> state \<Rightarrow> state" where
  "put_items Session m s = s\<lparr>sessionStorage := m\<rparr>"
| "put_items Local m s = s\<lparr>localStorage := m\<rparr>"

fun full :: "tier \<Rightarrow> state \<Rightarrow> bool" where
  "full Session s = session_full s"
| "full Local s = local_full s"

definition getItem :: "tier \<Rightarrow> string \<Rightarrow> state \<Rightarrow> error + storage_string option" where
  "getItem t k s = (if denied s then Inl SecurityError else Inr (items t s k))"

definition setItem :: "tier \<Rightarrow> string \<Rightarrow> storage_string \<Rightarrow> state \<Rightarrow> error + state" where
  "setItem t k v s =
     (if denied s then Inl SecurityError
      else if full t s then Inl QuotaExceededError
      else Inr (put_items t ((items t s)(k \<mapsto> v)) (s\<lparr>trace := trace s @ [SetItem t k v]\<rparr>)))"

definition removeItem :: "tier \<Rightarrow> string \<Rightarrow> state \<Rightarrow> error + state" where
  "removeItem t k s =
     (if denied s then Inl SecurityError
      else Inr (put_items t ((items t s)(k := None)) (s\<lparr>trace := trace s @ [RemoveItem t k]\<rparr>)))"

section \<open>Error channel\<close>

text \<open>\<open>handleError\<close> (lines 30-51): the console by level, then the callback; its result is
  the message, here the context and the error.\<close>

definition handleError :: "config \<Rightarrow> error \<Rightarrow> ctx \<Rightarrow> state \<Rightarrow> (ctx \<times> error) \<times> state" where
  "handleError cfg err c s =
     (let errorMessage = (c, err);
          s1 = (if errorLevel cfg = Detailed then s\<lparr>console := console s @ [ConsoleError c err]\<rparr>
                else if errorLevel cfg = Basic then s\<lparr>console := console s @ [ConsoleWarn c err]\<rparr>
                else s);
          s2 = (if onError cfg then s1\<lparr>reported := reported s1 @ [(err, c)]\<rparr> else s1)
      in (errorMessage, s2))"

section \<open>Transform pipeline\<close>

text \<open>
  \<open>applyBeforeSaveTransform\<close> (lines 271-308) and \<open>applyAfterRestoreTransform\<close> (lines
  311-348), \<open>registerTransformMiddleware\<close> and \<open>registerFieldTransforms\<close> (lines 351-362).
  First the \<open>forEach\<close> over the keys of the record that both transform functions run, for the
  field hooks \<open>sel\<close> (\<open>beforeSave\<close> or \<open>afterRestore\<close>) and the context \<open>c\<close> of that
  direction. A hook's result is written into the record; a hook that throws is passed to
  \<open>handleError\<close> and the record is left as it is.
\<close>

fun applyFieldHooks ::
  "config \<Rightarrow> (jsval DataTransformMiddleware \<Rightarrow> (jsval \<Rightarrow> error + jsval) option) \<Rightarrow> (string \<Rightarrow> ctx) \<Rightarrow>
     string list \<Rightarrow> obj \<Rightarrow> state \<Rightarrow> obj \<times> state" where
  "applyFieldHooks cfg sel c [] transformedData s = (transformedData, s)"
| "applyFieldHooks cfg sel c (field # rest) transformedData s =
     (case currentFieldTransforms s field of
        None \<Rightarrow> applyFieldHooks cfg sel c rest transformedData s
      | Some fieldMiddleware \<Rightarrow>
          (case sel fieldMiddleware of
             None \<Rightarrow> applyFieldHooks cfg sel c rest transformedData s
           | Some hook \<Rightarrow>
               (case hook (get_prop transformedData field) of
                  Inr v \<Rightarrow> applyFieldHooks cfg sel c rest (set_prop field v transformedData) s
                | Inl err \<Rightarrow>
                    applyFieldHooks cfg sel c rest transformedData
                      (snd (handleError cfg err (c field) s)))))"

text \<open>The global hook of one direction: its result replaces the record; when it throws,
  the error is handled and the record stays.\<close>

definition applyGlobalHook ::
  "config \<Rightarrow> (obj \<Rightarrow> error + obj) option \<Rightarrow> ctx \<Rightarrow> obj \<Rightarrow> state \<Rightarrow> obj \<times> state" where
  "applyGlobalHook cfg hook c transformedData s =
     (case hook of
        None \<Rightarrow> (transformedData, s)
      | Some h \<Rightarrow>
          (case h transformedData of
             Inr d \<Rightarrow> (d, s)
           | Inl err \<Rightarrow> (transformedData, snd (handleError cfg err c s))))"

definition applyBeforeSaveTransform :: "config \<Rightarrow> obj \<Rightarrow> state \<Rightarrow> obj \<times> state" where
  "applyBeforeSaveTransform cfg d s =
     (let (transformedData, s1) = applyFieldHooks cfg beforeSave CtxFieldBeforeSave (map fst d) d s
      in applyGlobalHook cfg (beforeSave (currentMiddleware s1)) CtxGlobalBeforeSave transformedData s1)"

definition applyAfterRestoreTransform :: "config \<Rightarrow> obj \<Rightarrow> state \<Rightarrow> obj \<times> state" where
  "applyAfterRestoreTransform cfg d s =
     (let (transformedData, s1) =
            applyGlobalHook cfg (afterRestore (currentMiddleware s)) CtxGlobalAfterRestore d s
      in applyFieldHooks cfg afterRestore CtxFieldAfterRestore (map fst transformedData) transformedData s1)"

definition registerTransformMiddleware :: "obj DataTransformMiddleware \<Rightarrow> state \<Rightarrow> state" where
  "registerTransformMiddleware middleware s =
     s\<lparr>currentMiddleware :=
         \<lparr>beforeSave = (case beforeSave middleware of
                          None \<Rightarrow> beforeSave (currentMiddleware s) | Some h \<Rightarrow> Some h),
          afterRestore = (case afterRestore middleware of
                            None \<Rightarrow> afterRestore (currentMiddleware s) | Some h \<Rightarrow> Some h)\<rparr>\<rparr>"

definition registerFieldTransforms ::
  "(string \<rightharpoonup> jsval DataTransformMiddleware) \<Rightarrow> state \<Rightarrow> state" where
  "registerFieldTransforms fieldTransforms s =
     s\<lparr>currentFieldTransforms := currentFieldTransforms s ++ fieldTransforms\<rparr>"

section \<open>Restoring the text tiers\<close>

text \<open>\<open>isDataExpired\<close> (lines 417-424), \<open>restoreFromSessionStorage\<close> (lines 427-464) and
  \<open>restoreFromLocalStorage\<close> (lines 467-509). Each result is the pair of \<open>formOnly\<close> and
  \<open>success\<close>.\<close>

definition isDataExpired :: "config \<Rightarrow> jsval \<Rightarrow> state \<Rightarrow> bool" where
  "isDataExpired cfg savedAt s =
     (if falsy savedAt then False
      else (case Date_getTime savedAt of
              None \<Rightarrow> False
            | Some savedMs \<Rightarrow> now s - savedMs > dataExpiryMs cfg))"

definition restoreFromSessionStorage :: "config \<Rightarrow> state \<Rightarrow> (obj \<times> bool) \<times> state" where
  "restoreFromSessionStorage cfg s =
     (case getItem Session (sessionKey cfg) s of
        Inl err \<Rightarrow> (([], False), snd (handleError cfg err CtxRestoreSession s))
      | Inr None \<Rightarrow> (([], False), s)
      | Inr (Some savedText) \<Rightarrow>
          if savedText = Chars [] then (([], False), s)
          else (case JSON_parse savedText of
                  Inl err \<Rightarrow> (([], False), snd (handleError cfg err CtxRestoreSession s))
                | Inr parsed \<Rightarrow>
                    if isDataExpired cfg (get_prop parsed ''savedAt'') s then
                      (case removeItem Session (sessionKey cfg) s of
                         Inl err \<Rightarrow> (([], False), snd (handleError cfg err CtxRestoreSession s))
                       | Inr s1 \<Rightarrow> (([], False), s1))
                    else
                      (let formDataWithoutTimestamp = delete_prop ''savedAt'' parsed;
                           (transformedData, s1) =
                              applyAfterRestoreTransform cfg formDataWithoutTimestamp s
                       in ((transformedData, True), s1))))"

definition restoreFromLocalStorage :: "config \<Rightarrow> state \<Rightarrow> (obj \<times> bool) \<times> state" where
  "restoreFromLocalStorage cfg s =
     (case getItem Local (storageKey cfg) s of
        Inl err \<Rightarrow> (([], False), snd (handleError cfg err CtxRestoreLocal s))
      | Inr None \<Rightarrow> (([], False), s)
      | Inr (Some localStorageText) \<Rightarrow>
          if localStorageText = Chars [] then (([], False), s)
          else (case JSON_parse localStorageText of
                  Inl err \<Rightarrow> (([], False), snd (handleError cfg err CtxRestoreLocal s))
                | Inr parsed \<Rightarrow>
                    if isDataExpired cfg (get_prop parsed ''savedAt'') s then
                      (case removeItem Local (storageKey cfg) s of
                         Inl err \<Rightarrow> (([], False), snd (handleError cfg err CtxRestoreLocal s))
                       | Inr s1 \<Rightarrow> (([], False), s1))
                    else
                      (let formDataWithoutTimestamp = delete_prop ''savedAt'' parsed;
                           (transformedData, s1) =
                              applyAfterRestoreTransform cfg formDataWithoutTimestamp s
                       in (case setItem Session (sessionKey cfg) localStorageText s1 of
                             Inl err \<Rightarrow> (([], False), snd (handleError cfg err CtxRestoreLocal s1))
                           | Inr s2 \<Rightarrow> ((transformedData, True), s2)))))"

section \<open>File storage\<close>

text \<open>The class \<open>FileStorage\<close> (lines 54-239). \<open>init\<close>: a second call returns at once;
  otherwise the database is opened, which the platform may refuse (with a message or without
  one). \<open>saveFile\<close> reads the file, reports the progress of the finished read, and adds the
  record; the progress events during the read are not modelled.\<close>

definition init :: "state \<Rightarrow> error + state" where
  "init s =
     (if isInitialized s then Inr s
      else (case indexedDB_open_error s of
              Some dbError \<Rightarrow> Inl (DbInitFailed dbError)
            | None \<Rightarrow> Inr (s\<lparr>isInitialized := True\<rparr>)))"

definition getFiles :: "string \<Rightarrow> string \<Rightarrow> state \<Rightarrow> error + StoredFile list" where
  "getFiles fId fName s =
     (if \<not> isInitialized s then Inl DbNotInitialized
      else Inr (filter (\<lambda>file. formId file = fId \<and> fieldName file = fName)
                  (records (indexedDB s))))"

definition clearFiles :: "string \<Rightarrow> state \<Rightarrow> error + state" where
  "clearFiles fId s =
     (if \<not> isInitialized s then Inl DbNotInitialized
      else Inr (s\<lparr>indexedDB := (indexedDB s)
                  \<lparr>records := filter (\<lambda>file. formId file \<noteq> fId) (records (indexedDB s))\<rparr>\<rparr>))"

text \<open>\<open>store.delete(key)\<close> and \<open>store.add(value)\<close> of the object store. The key of a new
  record comes from the key generator; \<open>add\<close> fails when the payload would exceed the
  capacity.\<close>

definition store_delete :: "nat \<Rightarrow> object_store \<Rightarrow> object_store" where
  "store_delete key db = db\<lparr>records := filter (\<lambda>file. fileId file \<noteq> key) (records db)\<rparr>"

definition stored_bytes :: "object_store \<Rightarrow> nat" where
  "stored_bytes db = sum_list (map (\<lambda>file. length (data file)) (records db))"

definition saveFile ::
  "File \<Rightarrow> string \<Rightarrow> string \<Rightarrow> (nat \<Rightarrow> state \<Rightarrow> state) \<Rightarrow> state \<Rightarrow> (error + nat) \<times> state" where
  "saveFile file fId fName onProgress s =
     (if \<not> isInitialized s then (Inl DbNotInitialized, s)
      else (case file_bytes file of
              None \<Rightarrow> (Inl NotReadableError, s)
            | Some fileDataBuffer \<Rightarrow>
                (let s1 = onProgress (file_size file) s;
                     db = indexedDB s1
                 in if stored_bytes db + length fileDataBuffer > capacity db
                    then (Inl (AddFileFailed QuotaExceededError), s1)
                    else
                      (let key = Suc (keygen db);
                           newRecord = \<lparr>fileId = key, formId = fId, fieldName = fName,
                                       fileName = file_name file, fileType = file_type file,
                                       fileSize = file_size file,
                                       lastModified = file_lastModified file,
                                       data = fileDataBuffer, savedTime = now s1\<rparr>
                       in (Inr key,
                           s1\<lparr>indexedDB := db\<lparr>records := records db @ [newRecord],
                                                keygen := key\<rparr>\<rparr>)))))"

text \<open>\<open>restoreFileData\<close> (lines 512-527), with its \<open>for\<close> loop first.\<close>

fun restoreFileData_loop :: "config \<Rightarrow> string list \<Rightarrow> state \<Rightarrow> (error + unit) \<times> state" where
  "restoreFileData_loop cfg [] s = (Inr (), s)"
| "restoreFileData_loop cfg (field # rest) s =
     (case getFiles (form cfg) field s of
        Inl err \<Rightarrow> (Inl err, s)
      | Inr files \<Rightarrow>
          restoreFileData_loop cfg rest (s\<lparr>fileData := AList.update field files (fileData s)\<rparr>))"

definition restoreFileData :: "config \<Rightarrow> bool \<Rightarrow> state \<Rightarrow> state" where
  "restoreFileData cfg shouldRestore s =
     (if \<not> shouldRestore then s
      else (case restoreFileData_loop cfg (fileFields cfg) s of
              (Inl err, s1) \<Rightarrow> snd (handleError cfg err CtxRestoreFiles s1)
            | (Inr u, s1) \<Rightarrow> s1))"

section \<open>The operations of the hook\<close>

text \<open>Two statements in a row inside one \<open>try\<close> block: the second runs only when the
  first did not throw, and on a throw the state reached so far is kept. \<open>attempt\<close> turns
  a call of the platform into such a statement.\<close>

definition attempt :: "(state \<Rightarrow> error + state) \<Rightarrow> state \<Rightarrow> (error + unit) \<times> state" where
  "attempt f s = (case f s of Inl err \<Rightarrow> (Inl err, s) | Inr s1 \<Rightarrow> (Inr (), s1))"

definition andThen ::
  "(state \<Rightarrow> (error + unit) \<times> state) \<Rightarrow> (state \<Rightarrow> (error + unit) \<times> state) \<Rightarrow>
     state \<Rightarrow> (error + unit) \<times> state" where
  "andThen f g s = (case f s of (Inl err, s1) \<Rightarrow> (Inl err, s1) | (Inr u, s1) \<Rightarrow> g s1)"

definition hasData :: "obj \<Rightarrow> bool" where
  "hasData fd = list_ex (\<lambda>(k, val). val \<noteq> Null \<and> val \<noteq> Undefined \<and> val \<noteq> Str []) fd"

definition hasFiles :: "(string \<times> StoredFile list) list \<Rightarrow> bool" where
  "hasFiles fd = list_ex (\<lambda>(k, files). length files > 0) fd"

text \<open>\<open>restoreData\<close> (lines 530-594), first its \<open>try\<close> block.\<close>

definition restoreData_try :: "config \<Rightarrow> state \<Rightarrow> (error + unit) \<times> state" where
  "restoreData_try cfg s =
     (case getItem Session (sessionKey cfg) s of
        Inl err \<Rightarrow> (Inl err, s)
      | Inr sessionItem \<Rightarrow>
     (case getItem Local (normalCloseKey cfg) s of
        Inl err \<Rightarrow> (Inl err, s)
      | Inr closeItem \<Rightarrow>
     (case getItem Local (storageKey cfg) s of
        Inl err \<Rightarrow> (Inl err, s)
      | Inr localItem \<Rightarrow>
       (let sessionExists = (sessionItem \<noteq> None);
            isNormalClose = (closeItem = Some (Chars ''true''));
            hasLocalStorageData = (localItem \<noteq> None);
            isCrashRecovery = (\<not> sessionExists \<and> hasLocalStorageData \<and> \<not> isNormalClose);
            (sessionResult, s1) = restoreFromSessionStorage cfg s;
            ((formOnly, isFromLocalStorage), s2) =
               (if snd sessionResult then ((fst sessionResult, False), s1)
                else if isCrashRecovery then
                  (let (localStorageResult, s2) = restoreFromLocalStorage cfg s1
                   in if snd localStorageResult then ((fst localStorageResult, True), s2)
                      else (([], False), s2))
                else (([], False), s1));
            s3 = (if length formOnly > 0
                  then s2\<lparr>formData := Object_assign (formData s2) formOnly\<rparr> else s2)
        in (case (if sessionExists \<or> isFromLocalStorage then Inr True
                  else if isNormalClose then Inr False
                  else (case getItem Local (storageKey cfg) s3 of
                          Inl err \<Rightarrow> Inl err
                        | Inr item \<Rightarrow> Inr (item \<noteq> None))) of
              Inl err \<Rightarrow> (Inl err, s3)
            | Inr shouldRestoreFiles \<Rightarrow>
                (let s4 = restoreFileData cfg shouldRestoreFiles s3
                 in (Inr (),
                     s4\<lparr>hasUnsavedChanges := (hasData (formData s4) \<or> hasFiles (fileData s4)),
                        error := None\<rparr>)))))))"

definition restoreData :: "config \<Rightarrow> state \<Rightarrow> state" where
  "restoreData cfg s =
     (case restoreData_try cfg s of
        (Inr u, s1) \<Rightarrow> s1
      | (Inl err, s1) \<Rightarrow>
          (let (errorMessage, s2) = handleError cfg err CtxRestoreData s1
           in s2\<lparr>error := Some errorMessage, hasUnsavedChanges := False\<rparr>))"

definition clearError :: "state \<Rightarrow> state" where
  "clearError s = s\<lparr>error := None\<rparr>"

text \<open>\<open>saveTextData\<close> (lines 602-628).\<close>

definition saveTextData :: "config \<Rightarrow> state \<Rightarrow> state" where
  "saveTextData cfg s =
     (let (transformedFormData, s1) = applyBeforeSaveTransform cfg (formData s) s;
          dataWithTimestamp = set_prop ''savedAt'' (Iso (now s1)) transformedFormData;
          dataString = JSON_stringify dataWithTimestamp
      in (case andThen (attempt (setItem Session (sessionKey cfg) dataString))
                       (attempt (setItem Local (storageKey cfg) dataString)) s1 of
            (Inr u, s2) \<Rightarrow> s2\<lparr>hasUnsavedChanges := True, error := None\<rparr>
          | (Inl err, s2) \<Rightarrow>
              (let (errorMessage, s3) = handleError cfg err CtxSaveText s2
               in s3\<lparr>error := Some errorMessage\<rparr>)))"

text \<open>\<open>deleteOldFiles\<close> (lines 631-657), \<open>saveSingleFile\<close> (lines 660-693) and
  \<open>saveFiles\<close> (lines 696-739).\<close>

definition deleteOldFiles :: "config \<Rightarrow> string \<Rightarrow> state \<Rightarrow> (error + unit) \<times> state" where
  "deleteOldFiles cfg fName s =
     (case getFiles (form cfg) fName s of
        Inl err \<Rightarrow> (Inl (DeleteOldFilesFailed err), s)
      | Inr oldFiles \<Rightarrow>
          if length oldFiles = 0 then (Inr (), s)
          else if \<not> isInitialized s then (Inl (DeleteOldFilesFailed DbNotInitialized), s)
          else (Inr (), s\<lparr>indexedDB := fold (\<lambda>oldFile. store_delete (fileId oldFile))
                                            oldFiles (indexedDB s)\<rparr>))"

definition saveSingleFile ::
  "config \<Rightarrow> File \<Rightarrow> string \<Rightarrow> nat \<Rightarrow> nat \<Rightarrow> state \<Rightarrow> (error + StoredFile) \<times> state" where
  "saveSingleFile cfg file fName totalSize loadedSize s =
     (case saveFile file (form cfg) fName
             (\<lambda>l s0. s0\<lparr>uploadProgress :=
                          Some \<lparr>progressField = fName, total = totalSize, loaded = loadedSize + l\<rparr>\<rparr>) s of
        (Inl err, s1) \<Rightarrow> (Inl err, s1)
      | (Inr key, s1) \<Rightarrow>
          (case getFiles (form cfg) fName s1 of
             Inl err \<Rightarrow> (Inl err, s1)
           | Inr savedFiles \<Rightarrow>
               (case find (\<lambda>f. fileId f = key) savedFiles of
                  None \<Rightarrow> (Inl (SavedFileNotFound key), s1)
                | Some savedFile \<Rightarrow> (Inr savedFile, s1))))"

text \<open>The \<open>for\<close> loop of \<open>saveFiles\<close> over the files that are left, with the bytes loaded
  and the records written so far.\<close>

fun saveFiles_loop ::
  "config \<Rightarrow> string \<Rightarrow> nat \<Rightarrow> File list \<Rightarrow> nat \<Rightarrow> StoredFile list \<Rightarrow> state \<Rightarrow>
     (error + StoredFile list) \<times> state" where
  "saveFiles_loop cfg fName totalSize [] loadedSize newFiles s = (Inr newFiles, s)"
| "saveFiles_loop cfg fName totalSize (file # rest) loadedSize newFiles s =
     (case saveSingleFile cfg file fName totalSize loadedSize s of
        (Inl err, s1) \<Rightarrow> (Inl err, s1)
      | (Inr savedFile, s1) \<Rightarrow>
          saveFiles_loop cfg fName totalSize rest (loadedSize + file_size file)
            (newFiles @ [savedFile]) s1)"

definition saveFiles_try :: "config \<Rightarrow> string \<Rightarrow> File list \<Rightarrow> state \<Rightarrow> (error + unit) \<times> state" where
  "saveFiles_try cfg fName files s =
     (let s0 = s\<lparr>error := None, uploadProgress := None\<rparr>
      in if fName = [] \<or> length files = 0 then (Inl InvalidSaveArguments, s0)
         else (case deleteOldFiles cfg fName s0 of
                 (Inl err, s1) \<Rightarrow> (Inl err, s1)
               | (Inr u, s1) \<Rightarrow>
                   (case saveFiles_loop cfg fName (sum_list (map file_size files)) files 0 [] s1 of
                      (Inl err, s2) \<Rightarrow> (Inl err, s2)
                    | (Inr newFiles, s2) \<Rightarrow>
                        (Inr (),
                         s2\<lparr>fileData := AList.update fName newFiles (fileData s2),
                            hasUnsavedChanges := True,
                            uploadProgress := None\<rparr>))))"

text \<open>\<open>saveFiles\<close> returns \<open>Inl err\<close> when it throws \<open>err\<close> to its caller.\<close>

definition saveFiles :: "config \<Rightarrow> string \<Rightarrow> File list \<Rightarrow> state \<Rightarrow> (error + unit) \<times> state" where
  "saveFiles cfg fName files s =
     (case saveFiles_try cfg fName files s of
        (Inr u, s1) \<Rightarrow> (Inr (), s1)
      | (Inl err, s1) \<Rightarrow>
          (let (errorMessage, s2) = handleError cfg err CtxSaveFiles s1
           in (Inl err, s2\<lparr>error := Some errorMessage, uploadProgress := None\<rparr>)))"

definition handlePageLeave :: "config \<Rightarrow> state \<Rightarrow> state" where
  "handlePageLeave cfg s = (if hasUnsavedChanges s then saveTextData cfg s else s)"

text \<open>\<open>handlePageLeave\<close> (lines 741-745) and \<open>handlePageClose\<close> (lines 756-775).
  \<open>handlePageClose\<close> has no \<open>try\<close>: an error of the storage tier leaves it. Its
  \<open>setTimeout\<close> puts the callback \<open>mirrorCloseMarker\<close> into the timer queue; \<open>runTimer\<close>
  is the platform running the first callback of the queue.\<close>

definition handlePageClose :: "config \<Rightarrow> state \<Rightarrow> (error + unit) \<times> state" where
  "handlePageClose cfg s =
     (let s1 = (if hasUnsavedChanges s then handlePageLeave cfg s else s)
      in if visibilityState s1 = Hidden then
           (case setItem Session (normalCloseKey cfg) (Chars ''true'') s1 of
              Inl err \<Rightarrow> (Inl err, s1)
            | Inr s2 \<Rightarrow> (Inr (), s2\<lparr>timers := timers s2 @ [MirrorCloseMarker]\<rparr>))
         else (Inr (), s1))"

definition mirrorCloseMarker :: "config \<Rightarrow> state \<Rightarrow> (error + unit) \<times> state" where
  "mirrorCloseMarker cfg s =
     (case getItem Session (normalCloseKey cfg) s of
        Inl err \<Rightarrow> (Inl err, s)
      | Inr item \<Rightarrow>
          if item \<noteq> None \<and> item \<noteq> Some (Chars [])
          then attempt (setItem Local (normalCloseKey cfg) (Chars ''true'')) s
          else (Inr (), s))"

definition runTimer :: "config \<Rightarrow> state \<Rightarrow> (error + unit) \<times> state" where
  "runTimer cfg s =
     (case timers s of
        [] \<Rightarrow> (Inr (), s)
      | MirrorCloseMarker # rest \<Rightarrow> mirrorCloseMarker cfg (s\<lparr>timers := rest\<rparr>))"

text \<open>\<open>clearStorage\<close> (lines 778-807) and \<open>cleanNormalCloseData\<close> (lines 813-837);
  \<open>resetFileData\<close> is the loop that empties the cache of every file field.\<close>

definition resetFileData :: "config \<Rightarrow> state \<Rightarrow> state" where
  "resetFileData cfg s =
     s\<lparr>fileData := fold (\<lambda>field fd. AList.update field [] fd) (fileFields cfg) (fileData s)\<rparr>"

definition clearStorage :: "config \<Rightarrow> state \<Rightarrow> state" where
  "clearStorage cfg s =
     (case andThen (attempt (removeItem Session (sessionKey cfg)))
            (andThen (attempt (removeItem Local (storageKey cfg)))
            (andThen (attempt (removeItem Local (normalCloseKey cfg)))
                     (attempt (clearFiles (form cfg))))) s of
        (Inr u, s1) \<Rightarrow> resetFileData cfg (s1\<lparr>hasUnsavedChanges := False, error := None\<rparr>)
      | (Inl err, s1) \<Rightarrow>
          (let (errorMessage, s2) = handleError cfg err CtxClearStorage s1
           in s2\<lparr>error := Some errorMessage\<rparr>))"

definition cleanNormalCloseData :: "config \<Rightarrow> state \<Rightarrow> state" where
  "cleanNormalCloseData cfg s =
     (if clearOnClose cfg then
        (case andThen (attempt (removeItem Session (sessionKey cfg)))
               (andThen (attempt (removeItem Local (storageKey cfg)))
               (andThen (attempt (removeItem Local (normalCloseKey cfg)))
                        (attempt (clearFiles (form cfg))))) s of
           (Inr u, s1) \<Rightarrow> resetFileData cfg s1
         | (Inl err, s1) \<Rightarrow> snd (handleError cfg err CtxCleanNormalClose s1))
      else s)"

text \<open>The handler that \<open>onMounted\<close> registers (lines 840-887), up to the point where it
  adds the event listeners; first its \<open>try\<close> block.\<close>

definition onMounted_try :: "config \<Rightarrow> state \<Rightarrow> (error + unit) \<times> state" where
  "onMounted_try cfg s =
     (case init s of
        Inl err \<Rightarrow> (Inl err, s)
      | Inr s1 \<Rightarrow>
     (case getItem Session (sessionKey cfg) s1 of
        Inl err \<Rightarrow> (Inl err, s1)
      | Inr sessionItem \<Rightarrow>
     (case getItem Local (normalCloseKey cfg) s1 of
        Inl err \<Rightarrow> (Inl err, s1)
      | Inr closeItem \<Rightarrow>
       (let sessionExists = (sessionItem \<noteq> None);
            isNormalClose = (closeItem = Some (Chars ''true''))
        in (case (if \<not> sessionExists \<and> isNormalClose \<and> clearOnClose cfg then
                    (case removeItem Local (normalCloseKey cfg) s1 of
                       Inl err \<Rightarrow> (Inl err, s1)
                     | Inr s2 \<Rightarrow> (Inr (), cleanNormalCloseData cfg s2))
                  else if \<not> sessionExists \<and> isNormalClose then
                    attempt (removeItem Local (normalCloseKey cfg)) s1
                  else (Inr (), s1)) of
              (Inl err, s2) \<Rightarrow> (Inl err, s2)
            | (Inr u, s2) \<Rightarrow>
                (let s3 = restoreData cfg s2
                 in if \<not> sessionExists
                    then attempt (removeItem Local (normalCloseKey cfg)) s3
                    else (Inr (), s3)))))))"

definition onMounted :: "config \<Rightarrow> state \<Rightarrow> state" where
  "onMounted cfg s =
     (case onMounted_try cfg s of
        (Inr u, s1) \<Rightarrow> s1
      | (Inl err, s1) \<Rightarrow>
          (let (errorMessage, s2) = handleError cfg err CtxInit s1
           in s2\<lparr>error := Some errorMessage\<rparr>))"

section \<open>Auxiliary definitions\<close>

subsection \<open>What the statements speak of\<close>

text \<open>
  \<open>fieldOutcome\<close> is the value that a field has after the field stage of a direction: the
  result of its hook, or its own value when no hook is registered or the hook throws;
  \<open>fieldFailure\<close> is the error of the hook when it throws. \<open>fieldFailures\<close> lists the fields
  whose hooks throw, in the order of the record, and \<open>reportFailures\<close> hands them to
  \<open>handleError\<close> one after another. \<open>globalOutcome\<close> is the record after the global hook.
  \<open>channel_received\<close> says that the error channel has shown an error under a context: the
  callback received it when one is registered, and the console printed it at the level of
  the configuration. \<open>file_of\<close> is the file that a record stores, and \<open>field_records\<close> are the
  records that the store holds for the form and one field.
\<close>

definition fieldOutcome ::
  "(jsval DataTransformMiddleware \<Rightarrow> (jsval \<Rightarrow> error + jsval) option) \<Rightarrow>
     (string \<rightharpoonup> jsval DataTransformMiddleware) \<Rightarrow> string \<Rightarrow> jsval \<Rightarrow> jsval" where
  "fieldOutcome sel ft k v =
     (case ft k of
        None \<Rightarrow> v
      | Some mw \<Rightarrow> (case sel mw of
                      None \<Rightarrow> v
                    | Some h \<Rightarrow> (case h v of Inr v' \<Rightarrow> v' | Inl e \<Rightarrow> v)))"

definition fieldFailure ::
  "(jsval DataTransformMiddleware \<Rightarrow> (jsval \<Rightarrow> error + jsval) option) \<Rightarrow>
     (string \<rightharpoonup> jsval DataTransformMiddleware) \<Rightarrow> string \<Rightarrow> jsval \<Rightarrow> error option" where
  "fieldFailure sel ft k v =
     (case ft k of
        None \<Rightarrow> None
      | Some mw \<Rightarrow> (case sel mw of
                      None \<Rightarrow> None
                    | Some h \<Rightarrow> (case h v of Inr v' \<Rightarrow> None | Inl e \<Rightarrow> Some e)))"

fun fieldFailures ::
  "(jsval DataTransformMiddleware \<Rightarrow> (jsval \<Rightarrow> error + jsval) option) \<Rightarrow>
     (string \<rightharpoonup> jsval DataTransformMiddleware) \<Rightarrow> obj \<Rightarrow> (string \<times> error) list" where
  "fieldFailures sel ft [] = []"
| "fieldFailures sel ft (p # d) =
     (case fieldFailure sel ft (fst p) (snd p) of
        None \<Rightarrow> fieldFailures sel ft d
      | Some e \<Rightarrow> (fst p, e) # fieldFailures sel ft d)"

fun reportFailures :: "config \<Rightarrow> (string \<Rightarrow> ctx) \<Rightarrow> (string \<times> error) list \<Rightarrow> state \<Rightarrow> state" where
  "reportFailures cfg c [] s = s"
| "reportFailures cfg c (p # fs) s = reportFailures cfg c fs (snd (handleError cfg (snd p) (c (fst p)) s))"

definition globalOutcome :: "(obj \<Rightarrow> error + obj) option \<Rightarrow> obj \<Rightarrow> obj" where
  "globalOutcome hook d =
     (case hook of None \<Rightarrow> d | Some g \<Rightarrow> (case g d of Inr d' \<Rightarrow> d' | Inl e \<Rightarrow> d))"

definition channel_received :: "config \<Rightarrow> error \<Rightarrow> ctx \<Rightarrow> state \<Rightarrow> bool" where
  "channel_received cfg e c s =
     ((onError cfg \<longrightarrow> (e, c) \<in> set (reported s)) \<and>
      (errorLevel cfg = Basic \<longrightarrow> ConsoleWarn c e \<in> set (console s)) \<and>
      (errorLevel cfg = Detailed \<longrightarrow> ConsoleError c e \<in> set (console s)))"

definition file_of :: "StoredFile \<Rightarrow> File" where
  "file_of r = \<lparr>file_name = fileName r, file_type = fileType r, file_size = fileSize r,
                file_lastModified = lastModified r, file_bytes = Some (data r)\<rparr>"

definition field_records :: "config \<Rightarrow> string \<Rightarrow> state \<Rightarrow> StoredFile list" where
  "field_records cfg fName s =
     filter (\<lambda>file. formId file = form cfg \<and> fieldName file = fName) (records (indexedDB s))"

subsection \<open>Frames\<close>

text \<open>
  What an operation leaves as it is. \<open>logs_only s s'\<close>: the state \<open>s'\<close> differs from \<open>s\<close> in
  the console and in what the error callback received, and in nothing else; \<open>files_only\<close>
  lets the cache of the files differ too. \<open>text_only\<close> and \<open>db_only\<close> list the fields that
  the operations on the text tiers and on the blob store keep.
\<close>

definition logs_only :: "state \<Rightarrow> state \<Rightarrow> bool" where
  "logs_only s s' = (\<exists>c r. s' = s\<lparr>console := c, reported := r\<rparr>)"

definition files_only :: "state \<Rightarrow> state \<Rightarrow> bool" where
  "files_only s s' = (\<exists>c r fd. s' = s\<lparr>console := c, reported := r, fileData := fd\<rparr>)"

definition text_only :: "state \<Rightarrow> state \<Rightarrow> bool" where
  "text_only s s' =
     (now s' = now s \<and> denied s' = denied s \<and> session_full s' = session_full s \<and>
      local_full s' = local_full s \<and> visibilityState s' = visibilityState s \<and>
      timers s' = timers s \<and> indexedDB s' = indexedDB s \<and>
      indexedDB_open_error s' = indexedDB_open_error s \<and> isInitialized s' = isInitialized s \<and>
      currentMiddleware s' = currentMiddleware s \<and>
      currentFieldTransforms s' = currentFieldTransforms s \<and>
      uploadProgress s' = uploadProgress s)"

definition db_only :: "state \<Rightarrow> state \<Rightarrow> bool" where
  "db_only s s' =
     (now s' = now s \<and> denied s' = denied s \<and> session_full s' = session_full s \<and>
      local_full s' = local_full s \<and> sessionStorage s' = sessionStorage s \<and>
      localStorage s' = localStorage s \<and> trace s' = trace s \<and>
      visibilityState s' = visibilityState s \<and> timers s' = timers s \<and>
      indexedDB_open_error s' = indexedDB_open_error s \<and> console s' = console s \<and>
      reported s' = reported s \<and> isInitialized s' = isInitialized s \<and>
      currentMiddleware s' = currentMiddleware s \<and>
      currentFieldTransforms s' = currentFieldTransforms s \<and> formData s' = formData s \<and>
      fileData s' = fileData s \<and> hasUnsavedChanges s' = hasUnsavedChanges s \<and>
      error s' = error s \<and> keygen (indexedDB s') \<ge> keygen (indexedDB s) \<and>
      capacity (indexedDB s') = capacity (indexedDB s))"

subsection \<open>Example inputs\<close>

text \<open>
  The form \<open>f1\<close> with one file field, a day of expiry and \<open>clearOnClose\<close> off, on a platform
  with empty tiers and an empty store; the states below vary it. The example hooks are the
  ones of the transform-order example (a field hook that changes the case of ASCII letters, a
  global hook that appends and removes a suffix) and hooks that always throw.
\<close>

definition example_cfg :: config where
  "example_cfg = \<lparr>form = ''f1'', fileFields = [''avatar''], clearOnClose = False,
     dataExpiryMs = 86400000, errorLevel = Basic, onError = True\<rparr>"

definition example_state :: state where
  "example_state = \<lparr>now = 90000000, denied = False, session_full = False, local_full = False,
     sessionStorage = Map.empty, localStorage = Map.empty, trace = [],
     visibilityState = Visible, timers = [],
     indexedDB = \<lparr>records = [], keygen = 0, capacity = 1000\<rparr>, indexedDB_open_error = None,
     console = [], reported = [], isInitialized = True,
     currentMiddleware = \<lparr>beforeSave = None, afterRestore = None\<rparr>,
     currentFieldTransforms = Map.empty,
     formData = [(''name'', Str [])], fileData = [(''avatar'', [])],
     hasUnsavedChanges = False, uploadProgress = None, error = None\<rparr>"


definition refreshed_session :: state where
  "refreshed_session = example_state
     \<lparr>sessionStorage := [''form_persistence_f1_session'' \<mapsto>
         Json [(''name'', Str ''Ada''), (''savedAt'', Iso 89999000)]]\<rparr>"

definition undated_session :: state where
  "undated_session = example_state
     \<lparr>now := 9000000000000,
      sessionStorage := [''form_persistence_f1_session'' \<mapsto> Json [(''name'', Str ''Ada'')]]\<rparr>"

definition cleanly_closed :: state where
  "cleanly_closed = example_state
     \<lparr>isInitialized := False,
      localStorage := [''form_persistence_f1'' \<mapsto>
                         Json [(''name'', Str ''Ada''), (''savedAt'', Iso 89999000)],
                       ''form_persistence_f1_normal_close'' \<mapsto> Chars ''true'']\<rparr>"

definition closing_page :: state where
  "closing_page = example_state
     \<lparr>visibilityState := Hidden, formData := [(''name'', Str ''Ada'')], hasUnsavedChanges := True\<rparr>"

definition toUpperCase :: "string \<Rightarrow> string" where
  "toUpperCase str =
     map (\<lambda>ch. if 97 \<le> (of_char ch :: nat) \<and> (of_char ch :: nat) \<le> 122
              then char_of (of_char ch - (32::nat)) else ch) str"

definition toLowerCase :: "string \<Rightarrow> string" where
  "toLowerCase str =
     map (\<lambda>ch. if 65 \<le> (of_char ch :: nat) \<and> (of_char ch :: nat) \<le> 90
              then char_of (of_char ch + (32::nat)) else ch) str"

definition uppercase_field :: "jsval DataTransformMiddleware" where
  "uppercase_field =
     \<lparr>beforeSave = Some (\<lambda>v. case v of Str str \<Rightarrow> Inr (Str (toUpperCase str)) | _ \<Rightarrow> Inr v),
      afterRestore = Some (\<lambda>v. case v of Str str \<Rightarrow> Inr (Str (toLowerCase str)) | _ \<Rightarrow> Inr v)\<rparr>"

definition strip_suffix :: "string \<Rightarrow> string \<Rightarrow> string" where
  "strip_suffix suffix str =
     (if length suffix \<le> length str \<and> drop (length str - length suffix) str = suffix
      then take (length str - length suffix) str else str)"

definition append_suffix :: "obj \<Rightarrow> error + obj" where
  "append_suffix d =
     Inr (map (\<lambda>(k, v). (k, case v of Str str \<Rightarrow> Str (str @ ''_SUFFIX'') | _ \<Rightarrow> v)) d)"

definition remove_suffix :: "obj \<Rightarrow> error + obj" where
  "remove_suffix d =
     Inr (map (\<lambda>(k, v). (k, case v of Str str \<Rightarrow> Str (strip_suffix ''_SUFFIX'' str) | _ \<Rightarrow> v)) d)"

definition suffix_global :: "obj DataTransformMiddleware" where
  "suffix_global = \<lparr>beforeSave = Some append_suffix, afterRestore = Some remove_suffix\<rparr>"

definition transforming :: state where
  "transforming =
     registerFieldTransforms [''name'' \<mapsto> uppercase_field]
       (registerTransformMiddleware suffix_global
          (example_state\<lparr>formData := [(''name'', Str ''x'')]\<rparr>))"

definition always_throws :: "string \<Rightarrow> 'a \<Rightarrow> error + 'a" where
  "always_throws m v = Inl (Thrown m)"

definition failing_field :: "jsval DataTransformMiddleware" where
  "failing_field = \<lparr>beforeSave = Some (always_throws ''boom''),
                    afterRestore = Some (always_throws ''boom'')\<rparr>"

definition failing_global :: "obj DataTransformMiddleware" where
  "failing_global = \<lparr>beforeSave = Some (always_throws ''global''),
                     afterRestore = Some (always_throws ''global'')\<rparr>"

definition faulty :: state where
  "faulty =
     registerFieldTransforms [''name'' \<mapsto> failing_field, ''nick'' \<mapsto> uppercase_field]
       (registerTransformMiddleware failing_global
          (example_state
             \<lparr>formData := [(''name'', Str ''x''), (''nick'', Str ''x'')],
              sessionStorage := [''form_persistence_f1_session'' \<mapsto>
                                   Json [(''name'', Str ''x''), (''nick'', Str ''X'')]]\<rparr>))"



definition fileA :: File where
  "fileA = \<lparr>file_name = ''a.png'', file_type = ''image/png'', file_size = 3,
            file_lastModified = 1, file_bytes = Some [1, 2, 3]\<rparr>"

definition fileB :: File where
  "fileB = \<lparr>file_name = ''b.png'', file_type = ''image/png'', file_size = 2,
            file_lastModified = 2, file_bytes = Some [4, 5]\<rparr>"

definition unreadable :: File where
  "unreadable = \<lparr>file_name = ''c.png'', file_type = ''image/png'', file_size = 4,
                 file_lastModified = 3, file_bytes = None\<rparr>"

definition after_fileA :: state where
  "after_fileA = snd (saveFiles example_cfg ''avatar'' [fileA] example_state)"

definition after_fileB :: state where
  "after_fileB = snd (saveFiles example_cfg ''avatar'' [fileB] after_fileA)"



section \<open>Properties\<close>

text \<open>The definitions of the model, for evaluating it on an example state.\<close>

lemmas model_defs =
  get_prop_def set_prop_def delete_prop_def Object_assign_def JSON_stringify_def
  STORAGE_PREFIX_def storageKey_def sessionKey_def normalCloseKey_def
  getItem_def setItem_def removeItem_def handleError_def
  applyGlobalHook_def applyBeforeSaveTransform_def applyAfterRestoreTransform_def
  isDataExpired_def restoreFromSessionStorage_def restoreFromLocalStorage_def
  init_def getFiles_def clearFiles_def store_delete_def stored_bytes_def saveFile_def
  restoreFileData_def attempt_def andThen_def hasData_def hasFiles_def
  restoreData_try_def restoreData_def saveTextData_def deleteOldFiles_def
  saveSingleFile_def saveFiles_try_def saveFiles_def handlePageLeave_def
  handlePageClose_def mirrorCloseMarker_def runTimer_def resetFileData_def
  clearStorage_def cleanNormalCloseData_def onMounted_try_def onMounted_def Let_def

subsection \<open>What the error channel and the transforms leave as it is\<close>

lemma logs_only_refl: "logs_only s s"
  unfolding logs_only_def by (rule exI [of _ "console s"], rule exI [of _ "reported s"]) simp

lemma logs_only_trans: "logs_only s s1 \<Longrightarrow> logs_only s1 s2 \<Longrightarrow> logs_only s s2"
  unfolding logs_only_def by clarsimp blast

lemma logs_only_handleError: "logs_only s (snd (handleError cfg err c s))"
proof -
  let ?s = "snd (handleError cfg err c s)"
  have "?s = s\<lparr>console := console ?s, reported := reported ?s\<rparr>"
    by (simp add: handleError_def Let_def)
  then show ?thesis unfolding logs_only_def by blast
qed

lemma logs_only_fields:
  assumes "logs_only s s'"
  shows "now s' = now s" "denied s' = denied s" "session_full s' = session_full s"
    "local_full s' = local_full s" "sessionStorage s' = sessionStorage s"
    "localStorage s' = localStorage s" "trace s' = trace s"
    "visibilityState s' = visibilityState s" "timers s' = timers s"
    "indexedDB s' = indexedDB s" "indexedDB_open_error s' = indexedDB_open_error s"
    "isInitialized s' = isInitialized s" "currentMiddleware s' = currentMiddleware s"
    "currentFieldTransforms s' = currentFieldTransforms s" "formData s' = formData s"
    "fileData s' = fileData s" "hasUnsavedChanges s' = hasUnsavedChanges s"
    "uploadProgress s' = uploadProgress s" "error s' = error s"
  using assms unfolding logs_only_def by auto

lemma logs_only_applyFieldHooks:
  "logs_only s (snd (applyFieldHooks cfg sel c ks d s))"
proof (induction ks arbitrary: d s)
  case Nil
  show ?case by (simp add: logs_only_refl)
next
  case (Cons k ks)
  show ?case
    by (auto simp: logs_only_refl Cons.IH split: option.splits sum.splits
             intro: logs_only_trans [OF logs_only_handleError Cons.IH])
qed

lemma logs_only_applyGlobalHook:
  "logs_only s (snd (applyGlobalHook cfg h c d s))"
  by (auto simp: applyGlobalHook_def logs_only_refl logs_only_handleError split: option.splits sum.splits)

lemma logs_only_applyAfterRestoreTransform:
  "logs_only s (snd (applyAfterRestoreTransform cfg d s))"
proof -
  obtain d1 s1 where g: "applyGlobalHook cfg (afterRestore (currentMiddleware s)) CtxGlobalAfterRestore d s = (d1, s1)"
    by (cases "applyGlobalHook cfg (afterRestore (currentMiddleware s)) CtxGlobalAfterRestore d s")
  have "logs_only s s1" using logs_only_applyGlobalHook [of s cfg _ CtxGlobalAfterRestore d] g
    by (metis snd_conv)
  moreover have "logs_only s1 (snd (applyFieldHooks cfg afterRestore CtxFieldAfterRestore (map fst d1) d1 s1))"
    by (rule logs_only_applyFieldHooks)
  ultimately show ?thesis
    unfolding applyAfterRestoreTransform_def using g by (simp add: logs_only_trans)
qed

lemma logs_only_applyBeforeSaveTransform:
  "logs_only s (snd (applyBeforeSaveTransform cfg d s))"
proof -
  obtain d1 s1 where f: "applyFieldHooks cfg beforeSave CtxFieldBeforeSave (map fst d) d s = (d1, s1)"
    by (cases "applyFieldHooks cfg beforeSave CtxFieldBeforeSave (map fst d) d s")
  have "logs_only s s1" using logs_only_applyFieldHooks [of s cfg beforeSave CtxFieldBeforeSave "map fst d" d] f
    by simp
  moreover have "logs_only s1 (snd (applyGlobalHook cfg (beforeSave (currentMiddleware s1)) CtxGlobalBeforeSave d1 s1))"
    by (rule logs_only_applyGlobalHook)
  ultimately show ?thesis
    unfolding applyBeforeSaveTransform_def using f by (simp add: logs_only_trans)
qed

subsection \<open>Restoring from the text tiers\<close>

lemma keys_distinct:
  "sessionKey cfg \<noteq> normalCloseKey cfg" "storageKey cfg \<noteq> normalCloseKey cfg"
  "normalCloseKey cfg \<noteq> sessionKey cfg" "normalCloseKey cfg \<noteq> storageKey cfg"
  by (simp_all add: sessionKey_def normalCloseKey_def storageKey_def)

lemma restoreFromSessionStorage_Json:
  assumes "\<not> denied s" and "sessionStorage s (sessionKey cfg) = Some (Json snap)"
  shows "restoreFromSessionStorage cfg s =
     (if isDataExpired cfg (get_prop snap ''savedAt'') s
      then (([], False), s\<lparr>trace := trace s @ [RemoveItem Session (sessionKey cfg)],
                            sessionStorage := (sessionStorage s)(sessionKey cfg := None)\<rparr>)
      else ((fst (applyAfterRestoreTransform cfg (delete_prop ''savedAt'' snap) s), True),
            snd (applyAfterRestoreTransform cfg (delete_prop ''savedAt'' snap) s)))"
  using assms
  by (simp add: restoreFromSessionStorage_def getItem_def removeItem_def Let_def case_prod_beta)

lemma restoreFromLocalStorage_Json:
  assumes "\<not> denied s" and "localStorage s (storageKey cfg) = Some (Json snap)"
  shows "restoreFromLocalStorage cfg s =
     (if isDataExpired cfg (get_prop snap ''savedAt'') s
      then (([], False), s\<lparr>trace := trace s @ [RemoveItem Local (storageKey cfg)],
                            localStorage := (localStorage s)(storageKey cfg := None)\<rparr>)
      else (let r = applyAfterRestoreTransform cfg (delete_prop ''savedAt'' snap) s in
            if session_full s
            then (([], False), snd (handleError cfg QuotaExceededError CtxRestoreLocal (snd r)))
            else ((fst r, True),
                  (snd r)\<lparr>trace := trace s @ [SetItem Session (sessionKey cfg) (Json snap)],
                          sessionStorage := (sessionStorage s)(sessionKey cfg \<mapsto> Json snap)\<rparr>)))"
proof -
  let ?r = "applyAfterRestoreTransform cfg (delete_prop ''savedAt'' snap) s"
  have lo: "logs_only s (snd ?r)" by (rule logs_only_applyAfterRestoreTransform)
  note f = logs_only_fields [OF lo]
  show ?thesis using assms
    by (simp add: restoreFromLocalStorage_def getItem_def removeItem_def setItem_def Let_def f
             case_prod_beta)
qed


lemma isDataExpired_absent:
  "map_of snap ''savedAt'' = None \<Longrightarrow> isDataExpired cfg (get_prop snap ''savedAt'') s = False"
  by (simp add: isDataExpired_def get_prop_def)

lemma restoreData_try_Inr:
  assumes "restoreData_try cfg s = (Inr u, s')"
  shows "\<exists>s4. s' = s4\<lparr>hasUnsavedChanges := (hasData (formData s4) \<or> hasFiles (fileData s4)),
                        error := None\<rparr>"
  using assms unfolding restoreData_try_def Let_def
  by (auto split: sum.splits prod.splits if_splits)

lemma restoreData_error:
  "error (restoreData cfg s) = None \<Longrightarrow> \<exists>s'. restoreData_try cfg s = (Inr (), s')"
  unfolding restoreData_def
  by (cases "restoreData_try cfg s") (auto simp: Let_def case_prod_beta split: sum.splits)

text \<open>
  Claim C9. When \<open>restoreData\<close> ends without an error in the error state, the flag
  \<open>hasUnsavedChanges\<close> is true exactly when some field of the form holds a value other than
  null, undefined and the empty string, or some file field holds a list that is not empty
  (an empty array, the number 0 and false count as data).
\<close>

theorem hasUnsavedChanges_after_restore:
  assumes "error (restoreData cfg s) = None"
  shows "hasUnsavedChanges (restoreData cfg s) \<longleftrightarrow>
           (\<exists>(k, val) \<in> set (formData (restoreData cfg s)). val \<noteq> Null \<and> val \<noteq> Undefined \<and> val \<noteq> Str [])
         \<or> (\<exists>(k, files) \<in> set (fileData (restoreData cfg s)). files \<noteq> [])"
proof -
  from assms obtain s' where t: "restoreData_try cfg s = (Inr (), s')"
    using restoreData_error by blast
  from restoreData_try_Inr [OF t] obtain s4 where
    s': "s' = s4\<lparr>hasUnsavedChanges := (hasData (formData s4) \<or> hasFiles (fileData s4)), error := None\<rparr>"
    by blast
  have r: "restoreData cfg s = s'" using t by (simp add: restoreData_def)
  show ?thesis unfolding r s'
    by (simp add: hasData_def hasFiles_def list_ex_iff)
qed

lemma refreshed_restore:
  "restoreData example_cfg refreshed_session =
     refreshed_session\<lparr>formData := [(''name'', Str ''Ada'')], hasUnsavedChanges := True\<rparr>"
  by (simp add: refreshed_session_def example_state_def example_cfg_def model_defs)

theorem hasUnsavedChanges_after_restore_witness:
  "error (restoreData example_cfg refreshed_session) = None
   \<and> hasUnsavedChanges (restoreData example_cfg refreshed_session)
   \<and> (\<exists>(k, val) \<in> set (formData (restoreData example_cfg refreshed_session)).
         val \<noteq> Null \<and> val \<noteq> Undefined \<and> val \<noteq> Str [])"
  using hasUnsavedChanges_after_restore [of example_cfg refreshed_session]
  by (simp add: refreshed_restore) (simp add: refreshed_session_def example_state_def)

lemma files_only_refl: "files_only s s"
  unfolding files_only_def
  by (rule exI [of _ "console s"], rule exI [of _ "reported s"], rule exI [of _ "fileData s"]) simp

lemma files_only_trans: "files_only s s1 \<Longrightarrow> files_only s1 s2 \<Longrightarrow> files_only s s2"
  unfolding files_only_def by clarsimp blast

lemma files_only_logs: "logs_only s s' \<Longrightarrow> files_only s s'"
  unfolding files_only_def logs_only_def
  by clarsimp (metis state.update_convs(18) state.surjective state.select_convs(18))

lemma files_only_fields:
  assumes "files_only s s'"
  shows "now s' = now s" "denied s' = denied s" "session_full s' = session_full s"
    "local_full s' = local_full s" "sessionStorage s' = sessionStorage s"
    "localStorage s' = localStorage s" "trace s' = trace s"
    "visibilityState s' = visibilityState s" "timers s' = timers s"
    "indexedDB s' = indexedDB s" "indexedDB_open_error s' = indexedDB_open_error s"
    "isInitialized s' = isInitialized s" "currentMiddleware s' = currentMiddleware s"
    "currentFieldTransforms s' = currentFieldTransforms s" "formData s' = formData s"
    "hasUnsavedChanges s' = hasUnsavedChanges s"
    "uploadProgress s' = uploadProgress s" "error s' = error s"
  using assms unfolding files_only_def by auto

lemma files_only_restoreFileData_loop:
  "files_only s (snd (restoreFileData_loop cfg fs s))"
proof (induction fs arbitrary: s)
  case Nil
  show ?case by (simp add: files_only_refl)
next
  case (Cons f fs)
  show ?case
  proof (cases "getFiles (form cfg) f s")
    case (Inl e)
    then show ?thesis by (simp add: files_only_refl)
  next
    case (Inr files)
    have "files_only s (s\<lparr>fileData := AList.update f files (fileData s)\<rparr>)"
      unfolding files_only_def
      by (rule exI [of _ "console s"], rule exI [of _ "reported s"]) auto
    from files_only_trans [OF this Cons.IH] show ?thesis using Inr by simp
  qed
qed

lemma files_only_restoreFileData: "files_only s (restoreFileData cfg b s)"
proof -
  obtain r s1 where l: "restoreFileData_loop cfg (fileFields cfg) s = (r, s1)"
    by (cases "restoreFileData_loop cfg (fileFields cfg) s")
  have a: "files_only s s1" using files_only_restoreFileData_loop [of s cfg "fileFields cfg"] l by simp
  have b: "files_only s1 (snd (handleError cfg e CtxRestoreFiles s1))" for e
    by (rule files_only_logs [OF logs_only_handleError])
  show ?thesis unfolding restoreFileData_def using l a files_only_trans [OF a b]
    by (auto simp: files_only_refl split: sum.splits)
qed

lemma assign_if:
  "(if length fo > 0 then s\<lparr>formData := Object_assign (formData s) fo\<rparr> else s)
     = s\<lparr>formData := Object_assign (formData s) fo\<rparr>"
  "(if fo \<noteq> [] then s\<lparr>formData := Object_assign (formData s) fo\<rparr> else s)
     = s\<lparr>formData := Object_assign (formData s) fo\<rparr>"
  "(if fo = [] then s else s\<lparr>formData := Object_assign (formData s) fo\<rparr>)
     = s\<lparr>formData := Object_assign (formData s) fo\<rparr>"
  by (cases fo; simp add: Object_assign_def)+

lemma restoreData_session_accept:
  assumes nd: "\<not> denied s" and ss: "sessionStorage s (sessionKey cfg) = Some (Json snap)"
    and ne: "\<not> isDataExpired cfg (get_prop snap ''savedAt'') s"
  shows "restoreData cfg s =
     (let r = applyAfterRestoreTransform cfg (delete_prop ''savedAt'' snap) s;
          s4 = restoreFileData cfg True ((snd r)\<lparr>formData := Object_assign (formData s) (fst r)\<rparr>)
      in s4\<lparr>hasUnsavedChanges := (hasData (formData s4) \<or> hasFiles (fileData s4)), error := None\<rparr>)"
proof -
  let ?r = "applyAfterRestoreTransform cfg (delete_prop ''savedAt'' snap) s"
  note f = logs_only_fields [OF logs_only_applyAfterRestoreTransform [of s cfg "delete_prop ''savedAt'' snap"]]
  show ?thesis
    unfolding restoreData_def restoreData_try_def
    by (simp add: getItem_def nd ss ne restoreFromSessionStorage_Json [OF nd ss] Let_def assign_if f)
qed


lemma restoreFromSessionStorage_None:
  assumes "\<not> denied s" and "sessionStorage s (sessionKey cfg) = None"
  shows "restoreFromSessionStorage cfg s = (([], False), s)"
  using assms by (simp add: restoreFromSessionStorage_def getItem_def)

lemma restoreData_crash_accept:
  assumes nd: "\<not> denied s" and ss: "sessionStorage s (sessionKey cfg) = None"
    and nm: "localStorage s (normalCloseKey cfg) \<noteq> Some (Chars ''true'')"
    and ls: "localStorage s (storageKey cfg) = Some (Json snap)"
    and ne: "\<not> isDataExpired cfg (get_prop snap ''savedAt'') s"
    and nf: "\<not> session_full s"
  shows "restoreData cfg s =
     (let r = applyAfterRestoreTransform cfg (delete_prop ''savedAt'' snap) s;
          s4 = restoreFileData cfg True
                 ((snd r)\<lparr>trace := trace s @ [SetItem Session (sessionKey cfg) (Json snap)],
                          sessionStorage := (sessionStorage s)(sessionKey cfg \<mapsto> Json snap),
                          formData := Object_assign (formData s) (fst r)\<rparr>)
      in s4\<lparr>hasUnsavedChanges := (hasData (formData s4) \<or> hasFiles (fileData s4)), error := None\<rparr>)"
proof -
  note f = logs_only_fields [OF logs_only_applyAfterRestoreTransform [of s cfg "delete_prop ''savedAt'' snap"]]
  show ?thesis
    unfolding restoreData_def restoreData_try_def
    by (simp add: getItem_def nd ss nm ls ne nf restoreFromSessionStorage_None [OF nd ss]
          restoreFromLocalStorage_Json [OF nd ls] Let_def assign_if f)
qed

lemma restoreData_normal_close:
  assumes nd: "\<not> denied s" and ss: "sessionStorage s (sessionKey cfg) = None"
    and nm: "localStorage s (normalCloseKey cfg) = Some (Chars ''true'')"
  shows "restoreData cfg s = s\<lparr>hasUnsavedChanges := (hasData (formData s) \<or> hasFiles (fileData s)), error := None\<rparr>"
  unfolding restoreData_def restoreData_try_def
  by (simp add: getItem_def nd ss nm restoreFromSessionStorage_None [OF nd ss] Let_def
        restoreFileData_def Object_assign_def)




text \<open>
  Claim C10. A stored snapshot without a \<open>savedAt\<close> field is never taken for expired,
  whatever the clock and \<open>dataExpiryMs\<close> are: \<open>restoreFromSessionStorage\<close> and
  \<open>restoreFromLocalStorage\<close> accept it, and \<open>restoreData\<close> merges it into the form.
\<close>

theorem snapshot_without_savedAt_never_expires:
  assumes "\<not> denied s" and "map_of snap ''savedAt'' = None"
  shows "\<not> isDataExpired cfg (get_prop snap ''savedAt'') s
    \<and> (sessionStorage s (sessionKey cfg) = Some (Json snap) \<longrightarrow>
         fst (restoreFromSessionStorage cfg s) = (fst (applyAfterRestoreTransform cfg snap s), True) \<and>
         formData (restoreData cfg s)
           = Object_assign (formData s) (fst (applyAfterRestoreTransform cfg snap s)))
    \<and> (sessionStorage s (sessionKey cfg) = None
         \<and> localStorage s (normalCloseKey cfg) \<noteq> Some (Chars ''true'')
         \<and> localStorage s (storageKey cfg) = Some (Json snap) \<and> \<not> session_full s \<longrightarrow>
         fst (restoreFromLocalStorage cfg s) = (fst (applyAfterRestoreTransform cfg snap s), True) \<and>
         formData (restoreData cfg s)
           = Object_assign (formData s) (fst (applyAfterRestoreTransform cfg snap s)))"
proof -
  let ?r = "applyAfterRestoreTransform cfg snap s"
  have ne: "\<not> isDataExpired cfg (get_prop snap ''savedAt'') s"
    using assms(2) by (simp add: isDataExpired_absent)
  have del: "delete_prop ''savedAt'' snap = snap"
    using assms(2) by (simp add: delete_prop_def map_of_eq_None_iff)
  note f = logs_only_fields [OF logs_only_applyAfterRestoreTransform [of s cfg snap]]
  have a: "fst (restoreFromSessionStorage cfg s) = (fst ?r, True) \<and>
         formData (restoreData cfg s) = Object_assign (formData s) (fst ?r)"
    if ss: "sessionStorage s (sessionKey cfg) = Some (Json snap)"
  proof -
    let ?s3 = "(snd ?r)\<lparr>formData := Object_assign (formData s) (fst ?r)\<rparr>"
    note g = files_only_fields [OF files_only_restoreFileData [of ?s3 cfg True]]
    show ?thesis
      using restoreFromSessionStorage_Json [OF assms(1) ss]
            restoreData_session_accept [OF assms(1) ss ne]
      by (simp add: ne del Let_def g)
  qed
  have b: "fst (restoreFromLocalStorage cfg s) = (fst ?r, True) \<and>
         formData (restoreData cfg s) = Object_assign (formData s) (fst ?r)"
    if ss: "sessionStorage s (sessionKey cfg) = None"
      and nm: "localStorage s (normalCloseKey cfg) \<noteq> Some (Chars ''true'')"
      and ls: "localStorage s (storageKey cfg) = Some (Json snap)" and nf: "\<not> session_full s"
  proof -
    let ?s3 = "(snd ?r)\<lparr>trace := trace s @ [SetItem Session (sessionKey cfg) (Json snap)],
                          sessionStorage := (sessionStorage s)(sessionKey cfg \<mapsto> Json snap),
                          formData := Object_assign (formData s) (fst ?r)\<rparr>"
    note g = files_only_fields [OF files_only_restoreFileData [of ?s3 cfg True]]
    show ?thesis
      using restoreFromLocalStorage_Json [OF assms(1) ls]
            restoreData_crash_accept [OF assms(1) ss nm ls ne nf]
      by (simp add: ne del nf Let_def g)
  qed
  from ne a b show ?thesis by blast
qed

theorem snapshot_without_savedAt_never_expires_witness:
  "\<not> denied undated_session
   \<and> map_of [(''name'', Str ''Ada'')] ''savedAt'' = None
   \<and> sessionStorage undated_session (sessionKey example_cfg) = Some (Json [(''name'', Str ''Ada'')])
   \<and> fst (restoreFromSessionStorage example_cfg undated_session) = ([(''name'', Str ''Ada'')], True)
   \<and> formData (restoreData example_cfg undated_session) = [(''name'', Str ''Ada'')]"
  using snapshot_without_savedAt_never_expires [of undated_session "[(''name'', Str ''Ada'')]" example_cfg]
  by (simp add: undated_session_def example_state_def example_cfg_def model_defs)

text \<open>
  Claim C1, at the input where the mount handler departs from it. The durable tier holds a
  snapshot, the close marker is set, the session tier is empty and \<open>clearOnClose\<close> is off.
  \<open>restoreData\<close> alone leaves the form as it is, but \<open>onMounted\<close> removes the marker
  before it calls \<open>restoreData\<close>, which then finds the conditions of a crash and restores the
  durable snapshot.
\<close>

theorem normal_restart_restores_durable_snapshot:
  "clearOnClose example_cfg = False
   \<and> sessionStorage cleanly_closed (sessionKey example_cfg) = None
   \<and> localStorage cleanly_closed (normalCloseKey example_cfg) = Some (Chars ''true'')
   \<and> localStorage cleanly_closed (storageKey example_cfg)
        = Some (Json [(''name'', Str ''Ada''), (''savedAt'', Iso 89999000)])
   \<and> formData cleanly_closed = [(''name'', Str [])]
   \<and> formData (restoreData example_cfg cleanly_closed) = [(''name'', Str [])]
   \<and> formData (onMounted example_cfg cleanly_closed) = [(''name'', Str ''Ada'')]
   \<and> sessionStorage (onMounted example_cfg cleanly_closed) (sessionKey example_cfg)
        = Some (Json [(''name'', Str ''Ada''), (''savedAt'', Iso 89999000)])
   \<and> error (onMounted example_cfg cleanly_closed) = None"
  by (simp add: cleanly_closed_def example_state_def example_cfg_def model_defs)

subsection \<open>The mount handler\<close>

lemma text_only_refl: "text_only s s"
  by (simp add: text_only_def)

lemma text_only_trans: "text_only s s1 \<Longrightarrow> text_only s1 s2 \<Longrightarrow> text_only s s2"
  by (simp add: text_only_def)

lemma text_only_files: "files_only s s' \<Longrightarrow> text_only s s'"
  by (simp add: text_only_def files_only_fields)

lemma text_only_logs: "logs_only s s' \<Longrightarrow> text_only s s'"
  by (rule text_only_files [OF files_only_logs])

lemma text_only_handleError: "text_only s (snd (handleError cfg err c s))"
  by (rule text_only_logs [OF logs_only_handleError])

lemma text_only_restoreFromSessionStorage:
  "text_only s (snd (restoreFromSessionStorage cfg s))"
proof -
  have a: "text_only s (snd (applyAfterRestoreTransform cfg d s))" for d
    by (rule text_only_logs [OF logs_only_applyAfterRestoreTransform])
  show ?thesis
    unfolding restoreFromSessionStorage_def
    by (auto simp: text_only_refl text_only_handleError a getItem_def removeItem_def
          case_prod_beta Let_def split: sum.splits option.splits)
       (simp_all add: text_only_def)
qed

lemma text_only_restoreFromLocalStorage:
  "text_only s (snd (restoreFromLocalStorage cfg s))"
proof -
  have a: "text_only s (snd (applyAfterRestoreTransform cfg d s))" for d
    by (rule text_only_logs [OF logs_only_applyAfterRestoreTransform])
  have b: "text_only s (snd (handleError cfg e c (snd (applyAfterRestoreTransform cfg d s))))" for d e c
    by (rule text_only_trans [OF a text_only_handleError])
  have c: "setItem Session k v (snd (applyAfterRestoreTransform cfg d s)) = Inr s2 \<Longrightarrow> text_only s s2"
    for d k v s2
    using a [of d] by (auto simp: setItem_def text_only_def split: if_splits)
  show ?thesis
    unfolding restoreFromLocalStorage_def
    by (auto simp: text_only_refl text_only_handleError a b c getItem_def removeItem_def
          case_prod_beta Let_def split: sum.splits option.splits)
       (simp_all add: text_only_def)
qed

lemma text_only_restoreData: "text_only s (restoreData cfg s)"
proof -
  have t: "text_only s (snd (restoreData_try cfg s))"
  proof -
    obtain r1 s1 where r1: "restoreFromSessionStorage cfg s = (r1, s1)"
      by (cases "restoreFromSessionStorage cfg s")
    have a: "text_only s s1"
      using text_only_restoreFromSessionStorage [of s cfg] r1 by simp
    obtain r2 s2 where r2: "restoreFromLocalStorage cfg s1 = (r2, s2)"
      by (cases "restoreFromLocalStorage cfg s1")
    have b: "text_only s s2"
      using text_only_trans [OF a text_only_restoreFromLocalStorage [of s1 cfg]] r2 by simp
    have c: "text_only s x \<Longrightarrow> text_only s (restoreFileData cfg sh (x\<lparr>formData := fd\<rparr>))" for x sh fd
      using text_only_files [OF files_only_restoreFileData [of "x\<lparr>formData := fd\<rparr>" cfg sh]]
      by (simp add: text_only_def)
    have d: "text_only s x \<Longrightarrow> text_only s (restoreFileData cfg sh x)" for x sh
      using text_only_files [OF files_only_restoreFileData [of x cfg sh]]
      by (simp add: text_only_def)
    have e: "text_only s x \<Longrightarrow> text_only s (x\<lparr>hasUnsavedChanges := h, error := er\<rparr>)" for x h er
      by (simp add: text_only_def)
    have f: "text_only s x \<Longrightarrow> text_only s (x\<lparr>formData := fd\<rparr>)" for x fd
      by (simp add: text_only_def)
    show ?thesis
      unfolding restoreData_try_def Let_def r1
      by (auto simp: text_only_refl a b c d e f r2 getItem_def split: sum.splits if_splits prod.splits)
  qed
  show ?thesis
    unfolding restoreData_def
    using t text_only_trans [OF t text_only_handleError]
    by (cases "restoreData_try cfg s") (auto simp: case_prod_beta text_only_def split: sum.splits)
qed

lemma init_ok:
  "indexedDB_open_error s = None \<Longrightarrow> init s = Inr (s\<lparr>isInitialized := True\<rparr>)"
  by (simp add: init_def)

lemma isDataExpired_now:
  "now s' = now s \<Longrightarrow> isDataExpired cfg v s' = isDataExpired cfg v s"
  by (simp add: isDataExpired_def split: option.splits)

lemma onMounted_without_marker:
  assumes nd: "\<not> denied s" and ok: "indexedDB_open_error s = None"
    and ss: "sessionStorage s (sessionKey cfg) = None"
    and nm: "localStorage s (normalCloseKey cfg) \<noteq> Some (Chars ''true'')"
  shows "onMounted cfg s =
     (let s3 = restoreData cfg (s\<lparr>isInitialized := True\<rparr>)
      in s3\<lparr>trace := trace s3 @ [RemoveItem Local (normalCloseKey cfg)],
            localStorage := (localStorage s3)(normalCloseKey cfg := None)\<rparr>)"
proof -
  have d: "\<not> denied (restoreData cfg (s\<lparr>isInitialized := True\<rparr>))"
    using text_only_restoreData [of "s\<lparr>isInitialized := True\<rparr>" cfg] nd
    by (simp add: text_only_def)
  show ?thesis
    unfolding onMounted_def onMounted_try_def
    by (simp add: init_ok [OF ok] getItem_def removeItem_def attempt_def nd ss nm Let_def d)
qed

lemma onMounted_with_marker_keeping_data:
  assumes nd: "\<not> denied s" and ok: "indexedDB_open_error s = None"
    and cc: "\<not> clearOnClose cfg"
    and ss: "sessionStorage s (sessionKey cfg) = None"
    and nm: "localStorage s (normalCloseKey cfg) = Some (Chars ''true'')"
  shows "onMounted cfg s =
     (let s3 = restoreData cfg
                 (s\<lparr>isInitialized := True,
                    trace := trace s @ [RemoveItem Local (normalCloseKey cfg)],
                    localStorage := (localStorage s)(normalCloseKey cfg := None)\<rparr>)
      in s3\<lparr>trace := trace s3 @ [RemoveItem Local (normalCloseKey cfg)],
            localStorage := (localStorage s3)(normalCloseKey cfg := None)\<rparr>)"
proof -
  let ?s1 = "s\<lparr>isInitialized := True,
               trace := trace s @ [RemoveItem Local (normalCloseKey cfg)],
               localStorage := (localStorage s)(normalCloseKey cfg := None)\<rparr>"
  have d: "\<not> denied (restoreData cfg ?s1)"
    using text_only_restoreData [of ?s1 cfg] nd by (simp add: text_only_def)
  show ?thesis
    unfolding onMounted_def onMounted_try_def
    by (simp add: init_ok [OF ok] getItem_def removeItem_def attempt_def nd ss nm cc Let_def d)
qed

lemma restoreData_crash_formData:
  assumes nd: "\<not> denied s" and ss: "sessionStorage s (sessionKey cfg) = None"
    and nm: "localStorage s (normalCloseKey cfg) \<noteq> Some (Chars ''true'')"
    and ls: "localStorage s (storageKey cfg) = Some (Json snap)"
    and ne: "\<not> isDataExpired cfg (get_prop snap ''savedAt'') s"
    and nf: "\<not> session_full s"
  shows "formData (restoreData cfg s)
           = Object_assign (formData s)
               (fst (applyAfterRestoreTransform cfg (delete_prop ''savedAt'' snap) s))"
    and "sessionStorage (restoreData cfg s) (sessionKey cfg) = Some (Json snap)"
proof -
  let ?r = "applyAfterRestoreTransform cfg (delete_prop ''savedAt'' snap) s"
  let ?s3 = "(snd ?r)\<lparr>trace := trace s @ [SetItem Session (sessionKey cfg) (Json snap)],
                        sessionStorage := (sessionStorage s)(sessionKey cfg \<mapsto> Json snap),
                        formData := Object_assign (formData s) (fst ?r)\<rparr>"
  note g = files_only_fields [OF files_only_restoreFileData [of ?s3 cfg True]]
  have "formData (restoreData cfg s) = formData (restoreFileData cfg True ?s3)"
    unfolding restoreData_crash_accept [OF nd ss nm ls ne nf] by (simp add: Let_def)
  also have "\<dots> = formData ?s3" by (rule g)
  finally show "formData (restoreData cfg s) = Object_assign (formData s) (fst ?r)" by simp
  have "sessionStorage (restoreData cfg s) = sessionStorage (restoreFileData cfg True ?s3)"
    unfolding restoreData_crash_accept [OF nd ss nm ls ne nf] by (simp add: Let_def)
  also have "\<dots> = sessionStorage ?s3" by (rule g)
  finally show "sessionStorage (restoreData cfg s) (sessionKey cfg) = Some (Json snap)" by simp
qed

text \<open>
  What the mount handler does after a crash, and what it does after a close that set the marker
  when \<open>clearOnClose\<close> is off: in both cases the durable snapshot is restored.
\<close>

lemma mount_after_crash:
  assumes nd: "\<not> denied s" and ok: "indexedDB_open_error s = None"
    and ss: "sessionStorage s (sessionKey cfg) = None"
    and nm: "localStorage s (normalCloseKey cfg) \<noteq> Some (Chars ''true'')"
    and ls: "localStorage s (storageKey cfg) = Some (Json snap)"
    and ne: "\<not> isDataExpired cfg (get_prop snap ''savedAt'') s"
    and nf: "\<not> session_full s"
  shows "formData (onMounted cfg s)
           = Object_assign (formData s)
               (fst (applyAfterRestoreTransform cfg (delete_prop ''savedAt'' snap)
                      (s\<lparr>isInitialized := True\<rparr>)))"
proof -
  let ?s1 = "s\<lparr>isInitialized := True\<rparr>"
  have ne1: "\<not> isDataExpired cfg (get_prop snap ''savedAt'') ?s1"
    using ne isDataExpired_now [of ?s1 s cfg "get_prop snap ''savedAt''"] by simp
  have "formData (onMounted cfg s) = formData (restoreData cfg ?s1)"
    unfolding onMounted_without_marker [OF nd ok ss nm] by (simp add: Let_def)
  also have "\<dots> = Object_assign (formData ?s1)
       (fst (applyAfterRestoreTransform cfg (delete_prop ''savedAt'' snap) ?s1))"
    by (rule restoreData_crash_formData (1) [of ?s1 cfg snap]) (use nd ss nm ls ne1 nf in simp_all)
  finally show ?thesis by simp
qed

lemma mount_after_normal_close_keeping_data:
  assumes nd: "\<not> denied s" and ok: "indexedDB_open_error s = None"
    and cc: "\<not> clearOnClose cfg"
    and ss: "sessionStorage s (sessionKey cfg) = None"
    and nm: "localStorage s (normalCloseKey cfg) = Some (Chars ''true'')"
    and ls: "localStorage s (storageKey cfg) = Some (Json snap)"
    and ne: "\<not> isDataExpired cfg (get_prop snap ''savedAt'') s"
    and nf: "\<not> session_full s"
  shows "formData (onMounted cfg s)
           = Object_assign (formData s)
               (fst (applyAfterRestoreTransform cfg (delete_prop ''savedAt'' snap)
                      (s\<lparr>isInitialized := True,
                         trace := trace s @ [RemoveItem Local (normalCloseKey cfg)],
                         localStorage := (localStorage s)(normalCloseKey cfg := None)\<rparr>)))"
proof -
  let ?s1 = "s\<lparr>isInitialized := True,
               trace := trace s @ [RemoveItem Local (normalCloseKey cfg)],
               localStorage := (localStorage s)(normalCloseKey cfg := None)\<rparr>"
  have ne1: "\<not> isDataExpired cfg (get_prop snap ''savedAt'') ?s1"
    using ne isDataExpired_now [of ?s1 s cfg "get_prop snap ''savedAt''"] by simp
  have "formData (onMounted cfg s) = formData (restoreData cfg ?s1)"
    unfolding onMounted_with_marker_keeping_data [OF nd ok cc ss nm] by (simp add: Let_def)
  also have "\<dots> = Object_assign (formData ?s1)
       (fst (applyAfterRestoreTransform cfg (delete_prop ''savedAt'' snap) ?s1))"
    by (rule restoreData_crash_formData (1) [of ?s1 cfg snap])
       (use nd ss nm ls ne1 nf in \<open>simp_all add: keys_distinct\<close>)
  finally show ?thesis by simp
qed

subsection \<open>Saving the text and marking the close\<close>

lemma saveTextData_eq:
  "saveTextData cfg s =
     (let r = applyBeforeSaveTransform cfg (formData s) s;
          d = JSON_stringify (set_prop ''savedAt'' (Iso (now s)) (fst r))
      in if denied s then
           (snd (handleError cfg SecurityError CtxSaveText (snd r)))\<lparr>error := Some (CtxSaveText, SecurityError)\<rparr>
         else if session_full s then
           (snd (handleError cfg QuotaExceededError CtxSaveText (snd r)))
             \<lparr>error := Some (CtxSaveText, QuotaExceededError)\<rparr>
         else if local_full s then
           (snd (handleError cfg QuotaExceededError CtxSaveText
                  ((snd r)\<lparr>trace := trace s @ [SetItem Session (sessionKey cfg) d],
                           sessionStorage := (sessionStorage s)(sessionKey cfg \<mapsto> d)\<rparr>)))
             \<lparr>error := Some (CtxSaveText, QuotaExceededError)\<rparr>
         else
           (snd r)\<lparr>trace := trace s @ [SetItem Session (sessionKey cfg) d,
                                          SetItem Local (storageKey cfg) d],
                    sessionStorage := (sessionStorage s)(sessionKey cfg \<mapsto> d),
                    localStorage := (localStorage s)(storageKey cfg \<mapsto> d),
                    hasUnsavedChanges := True, error := None\<rparr>)"
proof -
  note f = logs_only_fields [OF logs_only_applyBeforeSaveTransform [of s cfg "formData s"]]
  show ?thesis
    unfolding saveTextData_def
    by (simp add: Let_def case_prod_beta andThen_def attempt_def setItem_def f handleError_def)
qed

lemma text_only_saveTextData: "text_only s (saveTextData cfg s)"
proof -
  have a: "text_only s (snd (applyBeforeSaveTransform cfg (formData s) s))"
    by (rule text_only_logs [OF logs_only_applyBeforeSaveTransform])
  have b: "text_only s x \<Longrightarrow> text_only s ((snd (handleError cfg e c x))\<lparr>error := er\<rparr>)" for x e c er
    using text_only_trans [OF _ text_only_handleError [of x cfg e c]] by (simp add: text_only_def)
  have c: "text_only s x \<Longrightarrow> text_only s (x\<lparr>trace := tr, sessionStorage := ss\<rparr>)" for x tr ss
    by (simp add: text_only_def)
  have d: "text_only s x \<Longrightarrow> text_only s (x\<lparr>trace := tr, sessionStorage := ss, localStorage := ls,
              hasUnsavedChanges := h, error := er\<rparr>)" for x tr ss ls h er
    by (simp add: text_only_def)
  show ?thesis
    unfolding saveTextData_eq Let_def using a by (simp add: b c d)
qed

lemma trace_handleError: "trace (snd (handleError cfg e c s)) = trace s"
  by (rule logs_only_fields [OF logs_only_handleError])

lemma saveTextData_trace:
  "trace (saveTextData cfg s) =
     trace s @
     (let d = JSON_stringify (set_prop ''savedAt'' (Iso (now s))
                (fst (applyBeforeSaveTransform cfg (formData s) s)))
      in if denied s \<or> session_full s then []
         else if local_full s then [SetItem Session (sessionKey cfg) d]
         else [SetItem Session (sessionKey cfg) d, SetItem Local (storageKey cfg) d])"
proof -
  note f = logs_only_fields [OF logs_only_applyBeforeSaveTransform [of s cfg "formData s"]]
  show ?thesis
    unfolding saveTextData_eq Let_def by (simp add: trace_handleError f)
qed

lemma handlePageClose_eq:
  "handlePageClose cfg s =
     (let s1 = (if hasUnsavedChanges s then saveTextData cfg s else s)
      in if visibilityState s = Hidden then
           (if denied s then (Inl SecurityError, s1)
            else if session_full s then (Inl QuotaExceededError, s1)
            else (Inr (), s1\<lparr>trace := trace s1 @ [SetItem Session (normalCloseKey cfg) (Chars ''true'')],
                              sessionStorage := (sessionStorage s1)(normalCloseKey cfg \<mapsto> Chars ''true''),
                              timers := timers s @ [MirrorCloseMarker]\<rparr>))
         else (Inr (), s1))"
proof -
  note t = text_only_saveTextData [of s cfg, unfolded text_only_def]
  show ?thesis
    unfolding handlePageClose_def handlePageLeave_def
    by (simp add: Let_def setItem_def t)
qed

lemma mirrorCloseMarker_eq:
  "mirrorCloseMarker cfg s =
     (if denied s then (Inl SecurityError, s)
      else if sessionStorage s (normalCloseKey cfg) \<noteq> None
              \<and> sessionStorage s (normalCloseKey cfg) \<noteq> Some (Chars [])
      then (if local_full s then (Inl QuotaExceededError, s)
            else (Inr (), s\<lparr>trace := trace s @ [SetItem Local (normalCloseKey cfg) (Chars ''true'')],
                             localStorage := (localStorage s)(normalCloseKey cfg \<mapsto> Chars ''true'')\<rparr>))
      else (Inr (), s))"
  by (simp add: mirrorCloseMarker_def getItem_def setItem_def attempt_def)

text \<open>
  Claim C2. Every text save writes the session tier before the durable tier: the writes that
  \<open>saveTextData\<close> adds to the log are none, the session write alone, or the session write
  followed by the durable write of the same text. \<open>handlePageClose\<close> writes the marker into
  the session tier only and queues the mirroring callback together with that write; the
  callback writes the marker into the durable tier only when the session tier holds it. When
  the page is hidden and both tiers take writes, the marker's session write comes right before
  its durable write.
\<close>

theorem write_order:
  "(\<exists>w. trace (saveTextData cfg s) = trace s @ w \<and>
        (w = [] \<or> (\<exists>d. w = [SetItem Session (sessionKey cfg) d] \<or>
                        w = [SetItem Session (sessionKey cfg) d, SetItem Local (storageKey cfg) d])))
   \<and> (\<exists>w. trace (snd (handlePageClose cfg s)) = trace s @ w \<and>
          (\<forall>v. SetItem Local (normalCloseKey cfg) v \<notin> set w) \<and>
          (timers (snd (handlePageClose cfg s)) = timers s \<or>
           timers (snd (handlePageClose cfg s)) = timers s @ [MirrorCloseMarker] \<and>
           w \<noteq> [] \<and> last w = SetItem Session (normalCloseKey cfg) (Chars ''true'')))
   \<and> (trace (snd (mirrorCloseMarker cfg s)) = trace s \<or>
       trace (snd (mirrorCloseMarker cfg s))
         = trace s @ [SetItem Local (normalCloseKey cfg) (Chars ''true'')] \<and>
       sessionStorage s (normalCloseKey cfg) \<noteq> None)
   \<and> (visibilityState s = Hidden \<and> \<not> denied s \<and> \<not> session_full s \<and> \<not> local_full s
        \<and> timers s = [] \<longrightarrow>
       (\<exists>w. trace (snd (runTimer cfg (snd (handlePageClose cfg s))))
              = trace s @ w @ [SetItem Session (normalCloseKey cfg) (Chars ''true''),
                               SetItem Local (normalCloseKey cfg) (Chars ''true'')]))"
proof -
  let ?d = "JSON_stringify (set_prop ''savedAt'' (Iso (now s))
                (fst (applyBeforeSaveTransform cfg (formData s) s)))"
  let ?w = "if denied s \<or> session_full s then []
         else if local_full s then [SetItem Session (sessionKey cfg) ?d]
         else [SetItem Session (sessionKey cfg) ?d, SetItem Local (storageKey cfg) ?d]"
  have tr: "trace (saveTextData cfg s) = trace s @ ?w"
    using saveTextData_trace [of cfg s] by (simp add: Let_def)
  have a: "\<exists>w. trace (saveTextData cfg s) = trace s @ w \<and>
        (w = [] \<or> (\<exists>d. w = [SetItem Session (sessionKey cfg) d] \<or>
                        w = [SetItem Session (sessionKey cfg) d, SetItem Local (storageKey cfg) d]))"
    by (rule exI [of _ ?w]) (simp add: tr)
  define s1 where "s1 = (if hasUnsavedChanges s then saveTextData cfg s else s)"
  define w1 where "w1 = (if hasUnsavedChanges s then ?w else [])"
  have tr1: "trace s1 = trace s @ w1" using tr by (simp add: s1_def w1_def)
  have nl: "SetItem Local (normalCloseKey cfg) v \<notin> set w1" for v
    by (simp add: w1_def keys_distinct)
  have t: "text_only s s1"
    using text_only_saveTextData [of s cfg] by (simp add: s1_def text_only_refl)
  note tf = t [unfolded text_only_def]
  let ?m = "SetItem Session (normalCloseKey cfg) (Chars ''true'')"
  let ?s2 = "s1\<lparr>trace := trace s1 @ [?m],
                 sessionStorage := (sessionStorage s1)(normalCloseKey cfg \<mapsto> Chars ''true''),
                 timers := timers s @ [MirrorCloseMarker]\<rparr>"
  have hp: "snd (handlePageClose cfg s) =
      (if visibilityState s = Hidden \<and> \<not> denied s \<and> \<not> session_full s then ?s2 else s1)"
    unfolding handlePageClose_eq s1_def [symmetric] by (simp add: Let_def)
  have b: "\<exists>w. trace (snd (handlePageClose cfg s)) = trace s @ w \<and>
          (\<forall>v. SetItem Local (normalCloseKey cfg) v \<notin> set w) \<and>
          (timers (snd (handlePageClose cfg s)) = timers s \<or>
           timers (snd (handlePageClose cfg s)) = timers s @ [MirrorCloseMarker] \<and>
           w \<noteq> [] \<and> last w = ?m)"
  proof (cases "visibilityState s = Hidden \<and> \<not> denied s \<and> \<not> session_full s")
    case True
    then have e: "snd (handlePageClose cfg s) = ?s2" using hp by simp
    show ?thesis
      by (rule exI [of _ "w1 @ [?m]"]) (use nl tr1 in \<open>simp add: e\<close>)
  next
    case False
    then have e: "snd (handlePageClose cfg s) = s1" using hp by auto
    show ?thesis
      by (rule exI [of _ w1]) (use nl tr1 tf in \<open>simp add: e\<close>)
  qed
  have c: "trace (snd (mirrorCloseMarker cfg s)) = trace s \<or>
       trace (snd (mirrorCloseMarker cfg s)) = trace s @ [SetItem Local (normalCloseKey cfg) (Chars ''true'')] \<and>
       sessionStorage s (normalCloseKey cfg) \<noteq> None"
    unfolding mirrorCloseMarker_eq by simp
  have d: "\<exists>w. trace (snd (runTimer cfg (snd (handlePageClose cfg s))))
              = trace s @ w @ [?m, SetItem Local (normalCloseKey cfg) (Chars ''true'')]"
    if h: "visibilityState s = Hidden" "\<not> denied s" "\<not> session_full s" "\<not> local_full s" "timers s = []"
  proof (rule exI [of _ w1])
    have e: "snd (handlePageClose cfg s) = ?s2" using hp h by simp
    have f: "\<not> denied s1" "\<not> local_full s1" using tf h by simp_all
    show "trace (snd (runTimer cfg (snd (handlePageClose cfg s))))
              = trace s @ w1 @ [?m, SetItem Local (normalCloseKey cfg) (Chars ''true'')]"
      unfolding e runTimer_def using h f tr1
      by (simp add: mirrorCloseMarker_eq)
  qed
  from a b c d show ?thesis by blast
qed

theorem write_order_witness:
  "visibilityState closing_page = Hidden \<and> \<not> denied closing_page \<and> \<not> session_full closing_page
   \<and> \<not> local_full closing_page \<and> timers closing_page = [] \<and> trace closing_page = []
   \<and> trace (saveTextData example_cfg closing_page)
       = [SetItem Session ''form_persistence_f1_session''
            (Json [(''name'', Str ''Ada''), (''savedAt'', Iso 90000000)]),
          SetItem Local ''form_persistence_f1''
            (Json [(''name'', Str ''Ada''), (''savedAt'', Iso 90000000)])]
   \<and> timers (snd (handlePageClose example_cfg closing_page)) = [MirrorCloseMarker]
   \<and> trace (snd (runTimer example_cfg (snd (handlePageClose example_cfg closing_page))))
       = [SetItem Session ''form_persistence_f1_session''
            (Json [(''name'', Str ''Ada''), (''savedAt'', Iso 90000000)]),
          SetItem Local ''form_persistence_f1''
            (Json [(''name'', Str ''Ada''), (''savedAt'', Iso 90000000)]),
          SetItem Session ''form_persistence_f1_normal_close'' (Chars ''true''),
          SetItem Local ''form_persistence_f1_normal_close'' (Chars ''true'')]"
  using write_order [of example_cfg closing_page]
  by (simp add: closing_page_def example_state_def example_cfg_def model_defs)

subsection \<open>The transform pipeline\<close>

lemma update_append_notin:
  "k \<notin> fst ` set xs \<Longrightarrow> AList.update k v (xs @ ys) = xs @ AList.update k v ys"
  by (induction xs) auto

lemma get_prop_append_notin:
  "k \<notin> fst ` set xs \<Longrightarrow> get_prop (xs @ (k, v) # ys) k = v"
  by (simp add: get_prop_def map_add_def map_of_eq_None_iff [THEN iffD2])

lemma cft_handleError:
  "currentFieldTransforms (snd (handleError cfg e c s)) = currentFieldTransforms s"
  by (rule logs_only_fields [OF logs_only_handleError])

lemma applyFieldHooks_append:
  assumes "distinct (map fst rest)" and "fst ` set pre \<inter> fst ` set rest = {}"
    and "currentFieldTransforms s = ft"
  shows "applyFieldHooks cfg sel c (map fst rest) (pre @ rest) s =
           (pre @ map (\<lambda>(k, v). (k, fieldOutcome sel ft k v)) rest,
            reportFailures cfg c (fieldFailures sel ft rest) s)"
  using assms
proof (induction rest arbitrary: pre s)
  case Nil
  show ?case by simp
next
  case (Cons p rest)
  obtain k v where p: "p = (k, v)" by (cases p)
  have kp: "k \<notin> fst ` set pre" using Cons.prems(2) p by auto
  have d: "distinct (map fst rest)" using Cons.prems(1) by simp
  have i: "fst ` set (pre @ [(k, x)]) \<inter> fst ` set rest = {}" for x
    using Cons.prems(1,2) p by auto
  have g: "get_prop (pre @ p # rest) k = v"
    unfolding p by (rule get_prop_append_notin [OF kp])
  have u: "set_prop k x (pre @ p # rest) = (pre @ [(k, x)]) @ rest" for x
    unfolding p set_prop_def by (simp add: update_append_notin [OF kp])
  have same: "pre @ p # rest = (pre @ [(k, v)]) @ rest" by (simp add: p)
  note ih = Cons.IH [OF d i]
  show ?case
  proof (cases "ft k")
    case None
    then show ?thesis
      using Cons.prems(3) ih [of s v, OF Cons.prems(3)]
      by (simp add: p fieldOutcome_def fieldFailure_def)
  next
    case (Some mw)
    show ?thesis
    proof (cases "sel mw")
      case None
      then show ?thesis
        using Some Cons.prems(3) ih [of s v, OF Cons.prems(3)]
        by (simp add: p fieldOutcome_def fieldFailure_def)
    next
      case (Some h)
      note h = this
      show ?thesis
      proof (cases "h v")
        case (Inr v')
        then show ?thesis
          using \<open>ft k = Some mw\<close> h Cons.prems(3) ih [of s v', OF Cons.prems(3)] g u [of v']
          by (simp add: p fieldOutcome_def fieldFailure_def)
      next
        case (Inl e)
        let ?s' = "snd (handleError cfg e (c k) s)"
        have ft': "currentFieldTransforms ?s' = ft"
          using Cons.prems(3) by (simp add: cft_handleError)
        show ?thesis
          using \<open>ft k = Some mw\<close> h Inl Cons.prems(3) ih [of ?s' v, OF ft'] g
          by (simp add: p fieldOutcome_def fieldFailure_def)
      qed
    qed
  qed
qed

lemma applyFieldHooks_distinct:
  assumes "distinct (map fst d)"
  shows "applyFieldHooks cfg sel c (map fst d) d s =
           (map (\<lambda>(k, v). (k, fieldOutcome sel (currentFieldTransforms s) k v)) d,
            reportFailures cfg c (fieldFailures sel (currentFieldTransforms s) d) s)"
  using applyFieldHooks_append [of d "[]" s "currentFieldTransforms s" cfg sel c] assms by simp

lemma logs_only_reportFailures: "logs_only s (reportFailures cfg c fs s)"
proof (induction fs arbitrary: s)
  case Nil
  show ?case by (simp add: logs_only_refl)
next
  case (Cons p fs)
  show ?case
    using logs_only_trans [OF logs_only_handleError Cons.IH] by simp
qed

lemma reported_reportFailures:
  "reported (reportFailures cfg c fs s) =
     reported s @ (if onError cfg then map (\<lambda>p. (snd p, c (fst p))) fs else [])"
  by (induction fs arbitrary: s) (simp_all add: handleError_def Let_def)

lemma console_reportFailures:
  "console (reportFailures cfg c fs s) =
     console s @ (if errorLevel cfg = Detailed then map (\<lambda>p. ConsoleError (c (fst p)) (snd p)) fs
                  else if errorLevel cfg = Basic then map (\<lambda>p. ConsoleWarn (c (fst p)) (snd p)) fs
                  else [])"
  by (induction fs arbitrary: s) (simp_all add: handleError_def Let_def)

lemma fieldFailures_member:
  "(k, v) \<in> set d \<Longrightarrow> fieldFailure sel ft k v = Some e \<Longrightarrow> (k, e) \<in> set (fieldFailures sel ft d)"
  by (induction d) (auto split: option.splits)


lemma applyBeforeSaveTransform_distinct:
  assumes "distinct (map fst d)"
  shows "applyBeforeSaveTransform cfg d s =
     applyGlobalHook cfg (beforeSave (currentMiddleware s)) CtxGlobalBeforeSave
       (map (\<lambda>(k, v). (k, fieldOutcome beforeSave (currentFieldTransforms s) k v)) d)
       (reportFailures cfg CtxFieldBeforeSave
          (fieldFailures beforeSave (currentFieldTransforms s) d) s)"
proof -
  note f = logs_only_fields [OF logs_only_reportFailures
      [of s cfg CtxFieldBeforeSave "fieldFailures beforeSave (currentFieldTransforms s) d"]]
  show ?thesis
    unfolding applyBeforeSaveTransform_def
    by (simp add: applyFieldHooks_distinct [OF assms] f)
qed



lemma toUpperCase_x: "toUpperCase ''x'' = ''X''"
  by code_simp

lemma toLowerCase_X: "toLowerCase ''X'' = ''x''"
  by code_simp

lemma applyAfterRestoreTransform_distinct:
  assumes "afterRestore (currentMiddleware s) = Some g" and "g d = Inr d1"
    and "distinct (map fst d1)"
  shows "applyAfterRestoreTransform cfg d s =
     (map (\<lambda>(k, v). (k, fieldOutcome afterRestore (currentFieldTransforms s) k v)) d1,
      reportFailures cfg CtxFieldAfterRestore
        (fieldFailures afterRestore (currentFieldTransforms s) d1) s)"
  unfolding applyAfterRestoreTransform_def
  by (simp add: applyGlobalHook_def assms(1,2) applyFieldHooks_distinct [OF assms(3)])

text \<open>
  Claim C7. On save the field hooks run before the global hook: the global \<open>beforeSave\<close>
  hook receives the record in which every field already holds the result of its own hook, and
  its result is what is saved. On restore the order is the inverse: the field hooks run on the
  record that the global \<open>afterRestore\<close> hook returned. With a field hook that uppercases
  and a global hook that appends a suffix, the value \<open>x\<close> is saved as \<open>X_SUFFIX\<close>, and
  the restore turns \<open>X_SUFFIX\<close> back into \<open>x\<close>.
\<close>

theorem transform_order:
  assumes "distinct (map fst d)"
  shows "(beforeSave (currentMiddleware s) = Some g \<and>
          g (map (\<lambda>(k, v). (k, fieldOutcome beforeSave (currentFieldTransforms s) k v)) d) = Inr d'
          \<longrightarrow> fst (applyBeforeSaveTransform cfg d s) = d')
     \<and> (afterRestore (currentMiddleware s) = Some g' \<and> g' d = Inr d1 \<and> distinct (map fst d1)
          \<longrightarrow> fst (applyAfterRestoreTransform cfg d s)
                = map (\<lambda>(k, v). (k, fieldOutcome afterRestore (currentFieldTransforms s) k v)) d1)"
proof -
  have a: "fst (applyBeforeSaveTransform cfg d s) = d'"
    if "beforeSave (currentMiddleware s) = Some g"
      and "g (map (\<lambda>(k, v). (k, fieldOutcome beforeSave (currentFieldTransforms s) k v)) d) = Inr d'"
    unfolding applyBeforeSaveTransform_distinct [OF assms]
    using that by (simp add: applyGlobalHook_def)
  have b: "fst (applyAfterRestoreTransform cfg d s)
                = map (\<lambda>(k, v). (k, fieldOutcome afterRestore (currentFieldTransforms s) k v)) d1"
    if "afterRestore (currentMiddleware s) = Some g'" and "g' d = Inr d1" and "distinct (map fst d1)"
    using applyAfterRestoreTransform_distinct [OF that] by simp
  from a b show ?thesis by blast
qed

theorem transform_order_witness:
  "distinct (map fst [(''name'', Str ''x'')])
   \<and> fieldOutcome beforeSave (currentFieldTransforms transforming) ''name'' (Str ''x'') = Str ''X''
   \<and> beforeSave (currentMiddleware transforming) = Some append_suffix
   \<and> append_suffix [(''name'', Str ''X'')] = Inr [(''name'', Str ''X_SUFFIX'')]
   \<and> fst (applyBeforeSaveTransform example_cfg [(''name'', Str ''x'')] transforming)
        = [(''name'', Str ''X_SUFFIX'')]
   \<and> sessionStorage (saveTextData example_cfg transforming) (sessionKey example_cfg)
        = Some (Json [(''name'', Str ''X_SUFFIX''), (''savedAt'', Iso 90000000)])
   \<and> afterRestore (currentMiddleware transforming) = Some remove_suffix
   \<and> remove_suffix [(''name'', Str ''X_SUFFIX'')] = Inr [(''name'', Str ''X'')]
   \<and> fieldOutcome afterRestore (currentFieldTransforms transforming) ''name'' (Str ''X'') = Str ''x''
   \<and> fst (applyAfterRestoreTransform example_cfg [(''name'', Str ''X_SUFFIX'')] transforming)
        = [(''name'', Str ''x'')]"
  using transform_order [where d = "[(''name'', Str ''x'')]" and s = transforming
          and g = append_suffix and d' = "[(''name'', Str ''X_SUFFIX'')]" and cfg = example_cfg
          and g' = remove_suffix and ?d1.0 = "[(''name'', Str ''x'')]"]
        transform_order [where d = "[(''name'', Str ''X_SUFFIX'')]" and s = transforming
          and g = append_suffix and d' = "[]" and cfg = example_cfg
          and g' = remove_suffix and ?d1.0 = "[(''name'', Str ''X'')]"]
  by (simp add: transforming_def registerFieldTransforms_def registerTransformMiddleware_def
        uppercase_field_def suffix_global_def append_suffix_def remove_suffix_def strip_suffix_def
        fieldOutcome_def toUpperCase_x toLowerCase_X example_state_def example_cfg_def model_defs)

lemma channel_handleError: "channel_received cfg e c (snd (handleError cfg e c s))"
  by (simp add: channel_received_def handleError_def Let_def)

lemma channel_mono_handleError:
  "channel_received cfg e c s \<Longrightarrow> channel_received cfg e c (snd (handleError cfg e' c' s))"
  by (auto simp: channel_received_def handleError_def Let_def)

lemma channel_logs:
  "channel_received cfg e c s \<Longrightarrow> reported s' = reported s \<Longrightarrow> console s' = console s
     \<Longrightarrow> channel_received cfg e c s'"
  by (simp add: channel_received_def)

lemma channel_reportFailures_mono:
  "channel_received cfg e c s \<Longrightarrow> channel_received cfg e c (reportFailures cfg c' fs s)"
  by (induction fs arbitrary: s) (simp_all add: channel_mono_handleError)

lemma channel_reportFailures:
  "(k, e) \<in> set fs \<Longrightarrow> channel_received cfg e (c k) (reportFailures cfg c fs s)"
proof (induction fs arbitrary: s)
  case Nil
  then show ?case by simp
next
  case (Cons p fs)
  show ?case
  proof (cases "p = (k, e)")
    case True
    then show ?thesis
      using channel_reportFailures_mono [OF channel_handleError [of cfg e "c k" s], of c fs] by simp
  next
    case False
    then show ?thesis using Cons by simp
  qed
qed

lemma applyGlobalHook_fst: "fst (applyGlobalHook cfg hook c d s) = globalOutcome hook d"
  by (simp add: applyGlobalHook_def globalOutcome_def split: option.splits sum.splits)

lemma channel_applyGlobalHook_mono:
  "channel_received cfg e c s \<Longrightarrow> channel_received cfg e c (snd (applyGlobalHook cfg hook c' d s))"
  by (simp add: applyGlobalHook_def channel_mono_handleError split: option.splits sum.splits)

lemma channel_applyGlobalHook:
  "hook = Some g \<Longrightarrow> g d = Inl e \<Longrightarrow> channel_received cfg e c (snd (applyGlobalHook cfg hook c d s))"
  by (simp add: applyGlobalHook_def channel_handleError)

lemma fieldFailure_thrown:
  "ft k = Some mw \<Longrightarrow> sel mw = Some h \<Longrightarrow> h v = Inl e \<Longrightarrow>
     fieldFailure sel ft k v = Some e \<and> fieldOutcome sel ft k v = v"
  by (simp add: fieldFailure_def fieldOutcome_def)

lemma channel_saveTextData_mono:
  assumes "channel_received cfg e c (snd (applyBeforeSaveTransform cfg (formData s) s))"
  shows "channel_received cfg e c (saveTextData cfg s)"
proof -
  let ?r = "applyBeforeSaveTransform cfg (formData s) s"
  have a: "channel_received cfg e c ((snd (handleError cfg e' c' (snd ?r)))\<lparr>error := er\<rparr>)" for e' c' er
    using channel_mono_handleError [OF assms, of e' c'] by (simp add: channel_received_def)
  have b: "channel_received cfg e c
      ((snd (handleError cfg e' c' ((snd ?r)\<lparr>trace := tr, sessionStorage := ss\<rparr>)))\<lparr>error := er\<rparr>)"
    for e' c' er tr ss
  proof -
    have "channel_received cfg e c ((snd ?r)\<lparr>trace := tr, sessionStorage := ss\<rparr>)"
      using assms by (simp add: channel_received_def)
    from channel_mono_handleError [OF this, of e' c'] show ?thesis
      by (simp add: channel_received_def)
  qed
  have c: "channel_received cfg e c
      ((snd ?r)\<lparr>trace := tr, sessionStorage := ss, localStorage := ls,
               hasUnsavedChanges := True, error := None\<rparr>)" for tr ss ls
    using assms by (simp add: channel_received_def)
  show ?thesis
    unfolding saveTextData_eq Let_def by (simp add: a b c)
qed

lemma saveTextData_completes:
  assumes "\<not> denied s" and "\<not> session_full s" and "\<not> local_full s"
  shows "error (saveTextData cfg s) = None" and "hasUnsavedChanges (saveTextData cfg s)"
    and "sessionStorage (saveTextData cfg s) (sessionKey cfg)
           = Some (JSON_stringify (set_prop ''savedAt'' (Iso (now s))
                     (fst (applyBeforeSaveTransform cfg (formData s) s))))"
    and "localStorage (saveTextData cfg s) (storageKey cfg)
           = Some (JSON_stringify (set_prop ''savedAt'' (Iso (now s))
                     (fst (applyBeforeSaveTransform cfg (formData s) s))))"
  unfolding saveTextData_eq Let_def using assms by simp_all

lemma applyAfterRestoreTransform_general:
  assumes "distinct (map fst (globalOutcome (afterRestore (currentMiddleware s)) d0))"
  shows "applyAfterRestoreTransform cfg d0 s =
     (map (\<lambda>(k, v). (k, fieldOutcome afterRestore (currentFieldTransforms s) k v))
          (globalOutcome (afterRestore (currentMiddleware s)) d0),
      reportFailures cfg CtxFieldAfterRestore
        (fieldFailures afterRestore (currentFieldTransforms s)
           (globalOutcome (afterRestore (currentMiddleware s)) d0))
        (snd (applyGlobalHook cfg (afterRestore (currentMiddleware s)) CtxGlobalAfterRestore d0 s)))"
proof -
  let ?g = "applyGlobalHook cfg (afterRestore (currentMiddleware s)) CtxGlobalAfterRestore d0 s"
  have f: "currentFieldTransforms (snd ?g) = currentFieldTransforms s"
    by (rule logs_only_fields [OF logs_only_applyGlobalHook])
  have "applyAfterRestoreTransform cfg d0 s =
      applyFieldHooks cfg afterRestore CtxFieldAfterRestore (map fst (fst ?g)) (fst ?g) (snd ?g)"
    by (simp add: applyAfterRestoreTransform_def case_prod_beta)
  also have "\<dots> = (map (\<lambda>(k, v). (k, fieldOutcome afterRestore (currentFieldTransforms (snd ?g)) k v)) (fst ?g),
      reportFailures cfg CtxFieldAfterRestore
        (fieldFailures afterRestore (currentFieldTransforms (snd ?g)) (fst ?g)) (snd ?g))"
    by (rule applyFieldHooks_distinct) (use assms in \<open>simp add: applyGlobalHook_fst\<close>)
  finally show ?thesis by (simp add: f applyGlobalHook_fst)
qed

text \<open>
  Claim C8. A hook that throws is caught where it is applied. When the hook of field \<open>k\<close>
  throws, the field keeps its untransformed value, every other field still gets the result of
  its own hook, and the error reaches the error channel under the context of that field and
  direction; when the global hook throws, the record of the field stage is used as it is. The
  save still writes both tiers and ends without an error, and a restore still succeeds.
\<close>

theorem transform_failure_is_contained:
  assumes "distinct (map fst d)"
  shows
   "((k, v) \<in> set d \<and> currentFieldTransforms s k = Some mw \<and> beforeSave mw = Some h \<and> h v = Inl e \<longrightarrow>
       fieldOutcome beforeSave (currentFieldTransforms s) k v = v \<and>
       fst (applyBeforeSaveTransform cfg d s)
         = globalOutcome (beforeSave (currentMiddleware s))
             (map (\<lambda>(k', v'). (k', fieldOutcome beforeSave (currentFieldTransforms s) k' v')) d) \<and>
       channel_received cfg e (CtxFieldBeforeSave k) (snd (applyBeforeSaveTransform cfg d s)) \<and>
       (formData s = d \<longrightarrow> channel_received cfg e (CtxFieldBeforeSave k) (saveTextData cfg s)))
    \<and> (beforeSave (currentMiddleware s) = Some g \<and>
        g (map (\<lambda>(k', v'). (k', fieldOutcome beforeSave (currentFieldTransforms s) k' v')) d) = Inl eg \<longrightarrow>
       fst (applyBeforeSaveTransform cfg d s)
         = map (\<lambda>(k', v'). (k', fieldOutcome beforeSave (currentFieldTransforms s) k' v')) d \<and>
       channel_received cfg eg CtxGlobalBeforeSave (snd (applyBeforeSaveTransform cfg d s)) \<and>
       (formData s = d \<longrightarrow> channel_received cfg eg CtxGlobalBeforeSave (saveTextData cfg s)))
    \<and> (formData s = d \<and> \<not> denied s \<and> \<not> session_full s \<and> \<not> local_full s \<longrightarrow>
       error (saveTextData cfg s) = None \<and> hasUnsavedChanges (saveTextData cfg s) \<and>
       sessionStorage (saveTextData cfg s) (sessionKey cfg)
         = Some (JSON_stringify (set_prop ''savedAt'' (Iso (now s))
                   (fst (applyBeforeSaveTransform cfg d s)))) \<and>
       localStorage (saveTextData cfg s) (storageKey cfg)
         = Some (JSON_stringify (set_prop ''savedAt'' (Iso (now s))
                   (fst (applyBeforeSaveTransform cfg d s)))))
    \<and> ((k, v) \<in> set d \<and> currentFieldTransforms s k = Some mw \<and> afterRestore mw = Some h \<and> h v = Inl e
        \<and> globalOutcome (afterRestore (currentMiddleware s)) d0 = d \<longrightarrow>
       fieldOutcome afterRestore (currentFieldTransforms s) k v = v \<and>
       fst (applyAfterRestoreTransform cfg d0 s)
         = map (\<lambda>(k', v'). (k', fieldOutcome afterRestore (currentFieldTransforms s) k' v')) d \<and>
       channel_received cfg e (CtxFieldAfterRestore k) (snd (applyAfterRestoreTransform cfg d0 s)))
    \<and> (afterRestore (currentMiddleware s) = Some g' \<and> g' d = Inl eg \<longrightarrow>
       fst (applyAfterRestoreTransform cfg d s)
         = map (\<lambda>(k', v'). (k', fieldOutcome afterRestore (currentFieldTransforms s) k' v')) d \<and>
       channel_received cfg eg CtxGlobalAfterRestore (snd (applyAfterRestoreTransform cfg d s)))
    \<and> (\<not> denied s \<and> sessionStorage s (sessionKey cfg) = Some (Json snap)
        \<and> \<not> isDataExpired cfg (get_prop snap ''savedAt'') s \<and> delete_prop ''savedAt'' snap = d \<longrightarrow>
       fst (restoreFromSessionStorage cfg s) = (fst (applyAfterRestoreTransform cfg d s), True))"
proof -
  let ?ft = "currentFieldTransforms s"
  let ?fs = "map (\<lambda>(k', v'). (k', fieldOutcome beforeSave ?ft k' v')) d"
  let ?s1 = "reportFailures cfg CtxFieldBeforeSave (fieldFailures beforeSave ?ft d) s"
  note bs = applyBeforeSaveTransform_distinct [OF assms, of cfg s]
  have fst_bs: "fst (applyBeforeSaveTransform cfg d s) = globalOutcome (beforeSave (currentMiddleware s)) ?fs"
    unfolding bs by (rule applyGlobalHook_fst)
  have a: "fieldOutcome beforeSave ?ft k v = v \<and>
       fst (applyBeforeSaveTransform cfg d s) = globalOutcome (beforeSave (currentMiddleware s)) ?fs \<and>
       channel_received cfg e (CtxFieldBeforeSave k) (snd (applyBeforeSaveTransform cfg d s)) \<and>
       (formData s = d \<longrightarrow> channel_received cfg e (CtxFieldBeforeSave k) (saveTextData cfg s))"
    if h: "(k, v) \<in> set d" "?ft k = Some mw" "beforeSave mw = Some h" "h v = Inl e"
  proof -
    note t = fieldFailure_thrown [of ?ft k mw beforeSave h v e, OF h(2,3,4)]
    have m: "(k, e) \<in> set (fieldFailures beforeSave ?ft d)"
      by (rule fieldFailures_member [OF h(1)]) (simp add: t)
    have c: "channel_received cfg e (CtxFieldBeforeSave k) (snd (applyBeforeSaveTransform cfg d s))"
      unfolding bs
      by (rule channel_applyGlobalHook_mono [OF channel_reportFailures [OF m]])
    show ?thesis
      using t fst_bs c channel_saveTextData_mono [of cfg e "CtxFieldBeforeSave k" s] by auto
  qed
  have b: "fst (applyBeforeSaveTransform cfg d s) = ?fs \<and>
       channel_received cfg eg CtxGlobalBeforeSave (snd (applyBeforeSaveTransform cfg d s)) \<and>
       (formData s = d \<longrightarrow> channel_received cfg eg CtxGlobalBeforeSave (saveTextData cfg s))"
    if h: "beforeSave (currentMiddleware s) = Some g" "g ?fs = Inl eg"
  proof -
    have c: "channel_received cfg eg CtxGlobalBeforeSave (snd (applyBeforeSaveTransform cfg d s))"
      unfolding bs by (rule channel_applyGlobalHook [OF h])
    show ?thesis
      using fst_bs h c channel_saveTextData_mono [of cfg eg CtxGlobalBeforeSave s]
      by (auto simp: globalOutcome_def)
  qed
  have c: "error (saveTextData cfg s) = None \<and> hasUnsavedChanges (saveTextData cfg s) \<and>
       sessionStorage (saveTextData cfg s) (sessionKey cfg)
         = Some (JSON_stringify (set_prop ''savedAt'' (Iso (now s))
                   (fst (applyBeforeSaveTransform cfg d s)))) \<and>
       localStorage (saveTextData cfg s) (storageKey cfg)
         = Some (JSON_stringify (set_prop ''savedAt'' (Iso (now s))
                   (fst (applyBeforeSaveTransform cfg d s))))"
    if h: "formData s = d" "\<not> denied s" "\<not> session_full s" "\<not> local_full s"
    using saveTextData_completes [OF h(2,3,4), of cfg] h(1) by simp
  let ?rs = "map (\<lambda>(k', v'). (k', fieldOutcome afterRestore ?ft k' v')) d"
  have d: "fieldOutcome afterRestore ?ft k v = v \<and>
       fst (applyAfterRestoreTransform cfg d0 s) = ?rs \<and>
       channel_received cfg e (CtxFieldAfterRestore k) (snd (applyAfterRestoreTransform cfg d0 s))"
    if h: "(k, v) \<in> set d" "?ft k = Some mw" "afterRestore mw = Some h" "h v = Inl e"
      "globalOutcome (afterRestore (currentMiddleware s)) d0 = d"
  proof -
    note t = fieldFailure_thrown [of ?ft k mw afterRestore h v e, OF h(2,3,4)]
    have m: "(k, e) \<in> set (fieldFailures afterRestore ?ft d)"
      by (rule fieldFailures_member [OF h(1)]) (simp add: t)
    have dd: "distinct (map fst (globalOutcome (afterRestore (currentMiddleware s)) d0))"
      using assms h(5) by simp
    show ?thesis
      unfolding applyAfterRestoreTransform_general [OF dd] h(5)
      using t channel_reportFailures [OF m] by simp
  qed
  have e: "fst (applyAfterRestoreTransform cfg d s) = ?rs \<and>
       channel_received cfg eg CtxGlobalAfterRestore (snd (applyAfterRestoreTransform cfg d s))"
    if h: "afterRestore (currentMiddleware s) = Some g'" "g' d = Inl eg"
  proof -
    have go: "globalOutcome (afterRestore (currentMiddleware s)) d = d"
      using h by (simp add: globalOutcome_def)
    have dd: "distinct (map fst (globalOutcome (afterRestore (currentMiddleware s)) d))"
      using assms go by simp
    show ?thesis
      unfolding applyAfterRestoreTransform_general [OF dd] go
      using channel_reportFailures_mono [OF channel_applyGlobalHook [OF h, of cfg CtxGlobalAfterRestore s]]
      by simp
  qed
  have f: "fst (restoreFromSessionStorage cfg s) = (fst (applyAfterRestoreTransform cfg d s), True)"
    if h: "\<not> denied s" "sessionStorage s (sessionKey cfg) = Some (Json snap)"
      "\<not> isDataExpired cfg (get_prop snap ''savedAt'') s" "delete_prop ''savedAt'' snap = d"
    using restoreFromSessionStorage_Json [OF h(1,2)] h(3,4) by simp
  from a b c d e f show ?thesis by blast
qed

theorem transform_failure_is_contained_witness:
  "distinct (map fst (formData faulty))
   \<and> (''name'', Str ''x'') \<in> set (formData faulty)
   \<and> currentFieldTransforms faulty ''name'' = Some failing_field
   \<and> beforeSave failing_field = Some (always_throws ''boom'')
   \<and> afterRestore failing_field = Some (always_throws ''boom'')
   \<and> always_throws ''boom'' (Str ''x'') = Inl (Thrown ''boom'')
   \<and> beforeSave (currentMiddleware faulty) = Some (always_throws ''global'')
   \<and> afterRestore (currentMiddleware faulty) = Some (always_throws ''global'')
   \<and> \<not> denied faulty \<and> \<not> session_full faulty \<and> \<not> local_full faulty
   \<and> fst (applyBeforeSaveTransform example_cfg (formData faulty) faulty)
        = [(''name'', Str ''x''), (''nick'', Str ''X'')]
   \<and> reported (saveTextData example_cfg faulty)
        = [(Thrown ''boom'', CtxFieldBeforeSave ''name''), (Thrown ''global'', CtxGlobalBeforeSave)]
   \<and> error (saveTextData example_cfg faulty) = None
   \<and> localStorage (saveTextData example_cfg faulty) (storageKey example_cfg)
        = Some (Json [(''name'', Str ''x''), (''nick'', Str ''X''), (''savedAt'', Iso 90000000)])
   \<and> sessionStorage faulty (sessionKey example_cfg)
        = Some (Json [(''name'', Str ''x''), (''nick'', Str ''X'')])
   \<and> fst (restoreFromSessionStorage example_cfg faulty)
        = ([(''name'', Str ''x''), (''nick'', Str ''x'')], True)
   \<and> reported (snd (restoreFromSessionStorage example_cfg faulty))
        = [(Thrown ''global'', CtxGlobalAfterRestore), (Thrown ''boom'', CtxFieldAfterRestore ''name'')]"
  using transform_failure_is_contained [where d = "formData faulty" and k = "''name''"
          and v = "Str ''x''" and s = faulty and mw = failing_field and h = "always_throws ''boom''"
          and e = "Thrown ''boom''" and g = "always_throws ''global''" and eg = "Thrown ''global''"
          and g' = "always_throws ''global''" and cfg = example_cfg
          and ?d0.0 = "formData faulty" and snap = "formData faulty"]
        transform_failure_is_contained [where d = "[(''name'', Str ''x''), (''nick'', Str ''X'')]"
          and k = "''name''" and v = "Str ''x''" and s = faulty and mw = failing_field
          and h = "always_throws ''boom''" and e = "Thrown ''boom''"
          and g = "always_throws ''global''" and eg = "Thrown ''global''"
          and g' = "always_throws ''global''" and cfg = example_cfg
          and ?d0.0 = "[(''name'', Str ''x''), (''nick'', Str ''X'')]"
          and snap = "[(''name'', Str ''x''), (''nick'', Str ''X'')]"]
  by (simp add: faulty_def registerFieldTransforms_def registerTransformMiddleware_def
        failing_field_def failing_global_def always_throws_def uppercase_field_def
        fieldOutcome_def globalOutcome_def channel_received_def toUpperCase_x toLowerCase_X
        example_state_def example_cfg_def model_defs)

subsection \<open>Round trip through the session tier\<close>











subsection \<open>Files\<close>

lemma db_only_refl: "db_only s s"
  by (simp add: db_only_def)

lemma db_only_trans: "db_only s s1 \<Longrightarrow> db_only s1 s2 \<Longrightarrow> db_only s s2"
  by (simp add: db_only_def)

lemma getFiles_eq:
  "getFiles (form cfg) fName s =
     (if isInitialized s then Inr (field_records cfg fName s) else Inl DbNotInitialized)"
  by (simp add: getFiles_def field_records_def)

lemma records_fold_store_delete:
  "records (fold (\<lambda>oldFile. store_delete (fileId oldFile)) olds db)
     = filter (\<lambda>r. fileId r \<notin> fileId ` set olds) (records db)"
  by (induction olds arbitrary: db) (auto simp: store_delete_def intro: filter_cong)

lemma keygen_fold_store_delete:
  "keygen (fold (\<lambda>oldFile. store_delete (fileId oldFile)) olds db) = keygen db
   \<and> capacity (fold (\<lambda>oldFile. store_delete (fileId oldFile)) olds db) = capacity db"
  by (induction olds arbitrary: db) (auto simp: store_delete_def)

lemma deleteOldFiles_eq:
  "deleteOldFiles cfg fName s =
     (if \<not> isInitialized s then (Inl (DeleteOldFilesFailed DbNotInitialized), s)
      else (Inr (), s\<lparr>indexedDB := (indexedDB s)
              \<lparr>records := filter (\<lambda>r. fileId r \<notin> fileId ` set (field_records cfg fName s))
                            (records (indexedDB s))\<rparr>\<rparr>))"
proof (cases "isInitialized s")
  case False
  then show ?thesis by (simp add: deleteOldFiles_def getFiles_eq)
next
  case True
  let ?olds = "field_records cfg fName s"
  let ?db = "fold (\<lambda>oldFile. store_delete (fileId oldFile)) ?olds (indexedDB s)"
  have e: "?db = (indexedDB s)\<lparr>records := filter (\<lambda>r. fileId r \<notin> fileId ` set ?olds) (records (indexedDB s))\<rparr>"
    using records_fold_store_delete [of ?olds "indexedDB s"]
          keygen_fold_store_delete [of ?olds "indexedDB s"]
    by (intro object_store.equality) simp_all
  show ?thesis
  proof (cases "?olds = []")
    case True
    then show ?thesis using \<open>isInitialized s\<close>
      by (simp add: deleteOldFiles_def getFiles_eq)
  next
    case False
    then show ?thesis using \<open>isInitialized s\<close> e
      by (simp add: deleteOldFiles_def getFiles_eq)
  qed
qed

lemma field_records_after_delete:
  "filter (\<lambda>file. formId file = form cfg \<and> fieldName file = fName)
     (filter (\<lambda>r. fileId r \<notin> fileId ` set (field_records cfg fName s)) (records (indexedDB s))) = []"
  by (auto simp: field_records_def filter_empty_conv)

lemma saveSingleFile_result:
  assumes "saveSingleFile cfg file fName totalSize loadedSize s = (r, s')"
  shows "db_only s s' \<and>
     (case r of
        Inl e \<Rightarrow> records (indexedDB s') = records (indexedDB s)
      | Inr sf \<Rightarrow> (\<exists>n. records (indexedDB s') = records (indexedDB s) @ [n] \<and>
                       formId n = form cfg \<and> fieldName n = fName \<and> file_of n = file))"
proof (cases "isInitialized s")
  case False
  then show ?thesis using assms
    by (auto simp: saveSingleFile_def saveFile_def db_only_refl)
next
  case True
  note ini = this
  show ?thesis
  proof (cases "file_bytes file")
    case None
    then show ?thesis using assms ini
      by (auto simp: saveSingleFile_def saveFile_def db_only_refl)
  next
    case (Some b)
    let ?s1 = "s\<lparr>uploadProgress := Some \<lparr>progressField = fName, total = totalSize,
                                          loaded = loadedSize + file_size file\<rparr>\<rparr>"
    let ?db = "indexedDB s"
    show ?thesis
    proof (cases "stored_bytes ?db + length b > capacity ?db")
      case True
      then show ?thesis using assms ini Some
        by (auto simp: saveSingleFile_def saveFile_def Let_def db_only_def)
    next
      case False
      let ?key = "Suc (keygen ?db)"
      let ?n = "\<lparr>fileId = ?key, formId = form cfg, fieldName = fName,
                 fileName = file_name file, fileType = file_type file,
                 fileSize = file_size file, lastModified = file_lastModified file,
                 data = b, savedTime = now s\<rparr>"
      let ?s2 = "?s1\<lparr>indexedDB := ?db\<lparr>records := records ?db @ [?n], keygen := ?key\<rparr>\<rparr>"
      have sf: "saveFile file (form cfg) fName
             (\<lambda>l s0. s0\<lparr>uploadProgress :=
                          Some \<lparr>progressField = fName, total = totalSize, loaded = loadedSize + l\<rparr>\<rparr>) s
           = (Inr ?key, ?s2)"
        using ini Some False by (simp add: saveFile_def Let_def)
      have "?n \<in> set (field_records cfg fName ?s2)"
        by (simp add: field_records_def)
      then have "find (\<lambda>f. fileId f = ?key) (field_records cfg fName ?s2) \<noteq> None"
        by (auto simp: find_None_iff)
      then obtain found where fd: "find (\<lambda>f. fileId f = ?key) (field_records cfg fName ?s2) = Some found"
        by blast
      have res: "saveSingleFile cfg file fName totalSize loadedSize s = (Inr found, ?s2)"
        unfolding saveSingleFile_def sf using ini fd by (simp add: getFiles_eq)
      have fo: "file_of ?n = file"
        using Some by (cases "file") (simp add: file_of_def)
      have "r = Inr found" "s' = ?s2" using assms res by simp_all
      then show ?thesis using fo by (simp add: db_only_def)
    qed
  qed
qed

lemma saveFiles_loop_result:
  assumes "saveFiles_loop cfg fName totalSize files loadedSize acc s = (r, s')"
  shows "db_only s s' \<and>
     (\<exists>news. records (indexedDB s') = records (indexedDB s) @ news \<and>
        (\<forall>n \<in> set news. formId n = form cfg \<and> fieldName n = fName) \<and>
        (case r of
           Inr out \<Rightarrow> map file_of news = files
         | Inl e \<Rightarrow> (\<exists>k < length files. map file_of news = take k files)))"
  using assms
proof (induction files arbitrary: loadedSize acc s)
  case Nil
  then show ?case by (auto simp: db_only_refl)
next
  case (Cons fl rest)
  obtain r1 s1 where one: "saveSingleFile cfg fl fName totalSize loadedSize s = (r1, s1)"
    by (cases "saveSingleFile cfg fl fName totalSize loadedSize s")
  note st = saveSingleFile_result [OF one]
  show ?case
  proof (cases r1)
    case (Inl e)
    then have "r = Inl e" "s' = s1" using Cons.prems one by simp_all
    then show ?thesis using st Inl
      by (auto intro!: exI [of _ "[]"] exI [of _ 0])
  next
    case (Inr sf)
    then obtain n where n: "records (indexedDB s1) = records (indexedDB s) @ [n]"
        "formId n = form cfg" "fieldName n = fName" "file_of n = fl"
      using st by auto
    have loop: "saveFiles_loop cfg fName totalSize rest (loadedSize + file_size fl) (acc @ [sf]) s1 = (r, s')"
      using Cons.prems one Inr by simp
    from Cons.IH [OF loop] obtain news where
      ih: "db_only s1 s'" "records (indexedDB s') = records (indexedDB s1) @ news"
        "\<forall>n \<in> set news. formId n = form cfg \<and> fieldName n = fName"
        "case r of Inr out \<Rightarrow> map file_of news = rest
                 | Inl e \<Rightarrow> (\<exists>k < length rest. map file_of news = take k rest)"
      by blast
    have fr: "db_only s s'" using st ih(1) db_only_trans by blast
    have rec: "records (indexedDB s') = records (indexedDB s) @ (n # news)"
      using ih(2) n(1) by simp
    have all: "\<forall>m \<in> set (n # news). formId m = form cfg \<and> fieldName m = fName"
      using ih(3) n by simp
    have fin: "case r of Inr out \<Rightarrow> map file_of (n # news) = fl # rest
                 | Inl e \<Rightarrow> (\<exists>k < length (fl # rest). map file_of (n # news) = take k (fl # rest))"
    proof (cases r)
      case (Inl e)
      then obtain k where "k < length rest" "map file_of news = take k rest" using ih(4) by auto
      then have "Suc k < length (fl # rest) \<and> map file_of (n # news) = take (Suc k) (fl # rest)"
        using n(4) by simp
      then show ?thesis using Inl by (auto simp del: take_Suc_Cons)
    next
      case (Inr out)
      then show ?thesis using ih(4) n(4) by simp
    qed
    show ?thesis using fr rec all fin by blast
  qed
qed

lemma saveFiles_try_invalid:
  "fName = [] \<or> files = [] \<Longrightarrow>
     saveFiles_try cfg fName files s = (Inl InvalidSaveArguments, s\<lparr>error := None, uploadProgress := None\<rparr>)"
  by (auto simp: saveFiles_try_def Let_def)

lemma saveFiles_try_uninitialized:
  "fName \<noteq> [] \<Longrightarrow> files \<noteq> [] \<Longrightarrow> \<not> isInitialized s \<Longrightarrow>
     saveFiles_try cfg fName files s
       = (Inl (DeleteOldFilesFailed DbNotInitialized), s\<lparr>error := None, uploadProgress := None\<rparr>)"
  by (simp add: saveFiles_try_def Let_def deleteOldFiles_eq)

lemma saveFiles_try_valid:
  assumes v: "fName \<noteq> []" "files \<noteq> []" "isInitialized s"
    and t: "saveFiles_try cfg fName files s = (r, s')"
  shows "\<exists>news. records (indexedDB s')
            = filter (\<lambda>r. fileId r \<notin> fileId ` set (field_records cfg fName s)) (records (indexedDB s)) @ news
         \<and> field_records cfg fName s' = news
         \<and> isInitialized s'
         \<and> (case r of
              Inr u \<Rightarrow> map file_of news = files
            | Inl e \<Rightarrow> (\<exists>k < length files. map file_of news = take k files) \<and> fileData s' = fileData s)"
proof -
  let ?s0 = "s\<lparr>error := None, uploadProgress := None\<rparr>"
  let ?kept = "filter (\<lambda>r. fileId r \<notin> fileId ` set (field_records cfg fName s)) (records (indexedDB s))"
  let ?s1 = "?s0\<lparr>indexedDB := (indexedDB s)\<lparr>records := ?kept\<rparr>\<rparr>"
  have del: "deleteOldFiles cfg fName ?s0 = (Inr (), ?s1)"
    using v(3) by (simp add: deleteOldFiles_eq field_records_def)
  obtain r2 s2 where loop:
    "saveFiles_loop cfg fName (sum_list (map file_size files)) files 0 [] ?s1 = (r2, s2)"
    by (cases "saveFiles_loop cfg fName (sum_list (map file_size files)) files 0 [] ?s1")
  from saveFiles_loop_result [OF loop] obtain news where
    l: "db_only ?s1 s2" "records (indexedDB s2) = records (indexedDB ?s1) @ news"
      "\<forall>n \<in> set news. formId n = form cfg \<and> fieldName n = fName"
      "case r2 of Inr out \<Rightarrow> map file_of news = files
               | Inl e \<Rightarrow> (\<exists>k < length files. map file_of news = take k files)"
    by blast
  have rec2: "records (indexedDB s2) = ?kept @ news" using l(2) by simp
  have fr2: "filter (\<lambda>file. formId file = form cfg \<and> fieldName file = fName) (records (indexedDB s2)) = news"
    unfolding rec2 using l(3) field_records_after_delete [of cfg fName s]
    by (simp add: filter_id_conv)
  have ini2: "isInitialized s2" "fileData s2 = fileData s"
    using l(1) v(3) by (simp_all add: db_only_def)
  show ?thesis
  proof (cases r2)
    case (Inl e)
    then have "r = Inl e" "s' = s2"
      using t v(1,2) del loop by (simp_all add: saveFiles_try_def Let_def)
    then show ?thesis using rec2 fr2 ini2 l(4) Inl
      by (auto simp: field_records_def)
  next
    case (Inr out)
    then have "r = Inr ()"
        "s' = s2\<lparr>fileData := AList.update fName out (fileData s2), hasUnsavedChanges := True,
                  uploadProgress := None\<rparr>"
      using t v(1,2) del loop by (simp_all add: saveFiles_try_def Let_def)
    then show ?thesis using rec2 fr2 ini2 l(4) Inr
      by (auto simp: field_records_def)
  qed
qed

lemma saveFiles_Inr:
  "saveFiles cfg fName files s = (Inr u, s') \<longleftrightarrow> saveFiles_try cfg fName files s = (Inr (), s')"
  by (cases "saveFiles_try cfg fName files s")
     (auto simp: saveFiles_def case_prod_beta Let_def split: sum.splits)

lemma saveFiles_success:
  assumes "saveFiles cfg fName files s = (Inr (), s')"
  shows "fName \<noteq> [] \<and> files \<noteq> [] \<and> isInitialized s \<and> isInitialized s'
       \<and> map file_of (field_records cfg fName s') = files"
proof -
  have t: "saveFiles_try cfg fName files s = (Inr (), s')"
    using assms by (simp add: saveFiles_Inr)
  have v1: "fName \<noteq> [] \<and> files \<noteq> []"
    using t saveFiles_try_invalid [of fName files cfg s] by auto
  have v2: "isInitialized s"
    using t v1 saveFiles_try_uninitialized [of fName files s cfg] by auto
  from saveFiles_try_valid [OF _ _ v2 t] v1 show ?thesis using v2 by auto
qed

text \<open>
  Claim C3. After two successful calls of \<open>saveFiles\<close> on one field, the records that the
  blob store holds for the form and that field are the records of the files of the second
  call, in their order and with their names, types, sizes, dates and payloads: none of the
  first call is left, and the list is not empty.
\<close>

theorem saveFiles_replaces_records:
  assumes "saveFiles cfg fName filesA s = (Inr (), s1)"
    and "saveFiles cfg fName filesB s1 = (Inr (), s2)"
  shows "getFiles (form cfg) fName s1 = Inr (field_records cfg fName s1)
       \<and> map file_of (field_records cfg fName s1) = filesA
       \<and> getFiles (form cfg) fName s2 = Inr (field_records cfg fName s2)
       \<and> map file_of (field_records cfg fName s2) = filesB
       \<and> length (field_records cfg fName s2) = length filesB
       \<and> field_records cfg fName s2 \<noteq> []"
proof -
  note a = saveFiles_success [OF assms(1)]
  note b = saveFiles_success [OF assms(2)]
  have "length (map file_of (field_records cfg fName s2)) = length filesB"
    using b by simp
  then have l: "length (field_records cfg fName s2) = length filesB" by simp
  then have "field_records cfg fName s2 \<noteq> []" using b by auto
  then show ?thesis using a b l by (simp add: getFiles_eq)
qed

lemma after_fileA_eq:
  "after_fileA = example_state
     \<lparr>indexedDB := \<lparr>records = [\<lparr>fileId = 1, formId = ''f1'', fieldName = ''avatar'',
                                  fileName = ''a.png'', fileType = ''image/png'', fileSize = 3,
                                  lastModified = 1, data = [1, 2, 3], savedTime = 90000000\<rparr>],
                     keygen = 1, capacity = 1000\<rparr>,
      fileData := [(''avatar'', [\<lparr>fileId = 1, formId = ''f1'', fieldName = ''avatar'',
                                  fileName = ''a.png'', fileType = ''image/png'', fileSize = 3,
                                  lastModified = 1, data = [1, 2, 3], savedTime = 90000000\<rparr>])],
      hasUnsavedChanges := True\<rparr>"
  by (simp add: after_fileA_def fileA_def example_state_def example_cfg_def model_defs)

lemma after_fileB_eq:
  "after_fileB = example_state
     \<lparr>indexedDB := \<lparr>records = [\<lparr>fileId = 2, formId = ''f1'', fieldName = ''avatar'',
                                  fileName = ''b.png'', fileType = ''image/png'', fileSize = 2,
                                  lastModified = 2, data = [4, 5], savedTime = 90000000\<rparr>],
                     keygen = 2, capacity = 1000\<rparr>,
      fileData := [(''avatar'', [\<lparr>fileId = 2, formId = ''f1'', fieldName = ''avatar'',
                                  fileName = ''b.png'', fileType = ''image/png'', fileSize = 2,
                                  lastModified = 2, data = [4, 5], savedTime = 90000000\<rparr>])],
      hasUnsavedChanges := True\<rparr>"
  unfolding after_fileB_def after_fileA_eq
  by (simp add: fileB_def example_state_def example_cfg_def model_defs)

theorem saveFiles_replaces_records_witness:
  "saveFiles example_cfg ''avatar'' [fileA] example_state = (Inr (), after_fileA)
   \<and> saveFiles example_cfg ''avatar'' [fileB] after_fileA = (Inr (), after_fileB)
   \<and> map file_of (field_records example_cfg ''avatar'' after_fileB) = [fileB]
   \<and> records (indexedDB after_fileB)
        = [\<lparr>fileId = 2, formId = ''f1'', fieldName = ''avatar'', fileName = ''b.png'',
            fileType = ''image/png'', fileSize = 2, lastModified = 2, data = [4, 5],
            savedTime = 90000000\<rparr>]"
proof -
  have a: "saveFiles example_cfg ''avatar'' [fileA] example_state = (Inr (), after_fileA)"
    unfolding after_fileA_def
    by (simp add: prod_eq_iff)
       (simp add: fileA_def example_state_def example_cfg_def model_defs)
  have b: "saveFiles example_cfg ''avatar'' [fileB] after_fileA = (Inr (), after_fileB)"
    unfolding after_fileB_def
    by (simp add: prod_eq_iff)
       (simp add: after_fileA_eq fileB_def example_state_def example_cfg_def model_defs)
  from saveFiles_replaces_records [OF a b] a b show ?thesis
    by (simp add: after_fileB_eq)
qed

lemma saveFiles_Inl:
  assumes "fst (saveFiles cfg fName files s) = Inl e"
  shows "\<exists>s1. saveFiles_try cfg fName files s = (Inl e, s1) \<and>
           snd (saveFiles cfg fName files s)
             = (snd (handleError cfg e CtxSaveFiles s1))\<lparr>error := Some (CtxSaveFiles, e), uploadProgress := None\<rparr>"
  using assms
  by (cases "saveFiles_try cfg fName files s")
     (auto simp: saveFiles_def case_prod_beta Let_def handleError_def split: sum.splits)

text \<open>
  Claim C4. \<open>saveFiles\<close> fails when the field name or the file list is empty. Whenever it
  fails with an error, that error is what it throws to its caller and what the error state
  holds under the context of \<open>saveFiles\<close>, the error channel has received it, the progress is
  null and the cache \<open>fileData\<close> is what it was before the call. When the arguments were valid
  and the store initialised, the failure came at some file \<open>k\<close>: the old records of the field
  are gone, the records of the \<open>k\<close> files before it are stored, and no later file was
  processed. Otherwise the store is untouched.
\<close>

theorem saveFiles_failure:
  "(fName = [] \<or> files = [] \<longrightarrow> fst (saveFiles cfg fName files s) = Inl InvalidSaveArguments)
   \<and> (fst (saveFiles cfg fName files s) = Inl e \<longrightarrow>
        error (snd (saveFiles cfg fName files s)) = Some (CtxSaveFiles, e)
      \<and> channel_received cfg e CtxSaveFiles (snd (saveFiles cfg fName files s))
      \<and> uploadProgress (snd (saveFiles cfg fName files s)) = None
      \<and> fileData (snd (saveFiles cfg fName files s)) = fileData s
      \<and> (fName \<noteq> [] \<and> files \<noteq> [] \<and> isInitialized s \<longrightarrow>
           (\<exists>k news. k < length files \<and> map file_of news = take k files \<and>
              records (indexedDB (snd (saveFiles cfg fName files s)))
                = filter (\<lambda>r. fileId r \<notin> fileId ` set (field_records cfg fName s))
                    (records (indexedDB s)) @ news \<and>
              field_records cfg fName (snd (saveFiles cfg fName files s)) = news))
      \<and> (fName = [] \<or> files = [] \<or> \<not> isInitialized s \<longrightarrow>
           indexedDB (snd (saveFiles cfg fName files s)) = indexedDB s))"
proof -
  let ?res = "saveFiles cfg fName files s"
  have a: "fst ?res = Inl InvalidSaveArguments" if "fName = [] \<or> files = []"
    using saveFiles_try_invalid [OF that, of cfg s] by (simp add: saveFiles_def case_prod_beta Let_def)
  have b: "error (snd ?res) = Some (CtxSaveFiles, e)
      \<and> channel_received cfg e CtxSaveFiles (snd ?res)
      \<and> uploadProgress (snd ?res) = None
      \<and> fileData (snd ?res) = fileData s
      \<and> (fName \<noteq> [] \<and> files \<noteq> [] \<and> isInitialized s \<longrightarrow>
           (\<exists>k news. k < length files \<and> map file_of news = take k files \<and>
              records (indexedDB (snd ?res))
                = filter (\<lambda>r. fileId r \<notin> fileId ` set (field_records cfg fName s))
                    (records (indexedDB s)) @ news \<and>
              field_records cfg fName (snd ?res) = news))
      \<and> (fName = [] \<or> files = [] \<or> \<not> isInitialized s \<longrightarrow> indexedDB (snd ?res) = indexedDB s)"
    if f: "fst ?res = Inl e"
  proof -
    from saveFiles_Inl [OF f] obtain s1 where
      t: "saveFiles_try cfg fName files s = (Inl e, s1)"
      and r: "snd ?res = (snd (handleError cfg e CtxSaveFiles s1))\<lparr>error := Some (CtxSaveFiles, e), uploadProgress := None\<rparr>"
      by blast
    let ?h = "snd (handleError cfg e CtxSaveFiles s1)"
    note lf = logs_only_fields [OF logs_only_handleError [of s1 cfg e CtxSaveFiles]]
    have er: "error (snd ?res) = Some (CtxSaveFiles, e)" "uploadProgress (snd ?res) = None"
      unfolding r by simp_all
    have ch: "channel_received cfg e CtxSaveFiles (snd ?res)"
      unfolding r using channel_handleError [of cfg e CtxSaveFiles s1]
      by (simp add: channel_received_def)
    have db: "indexedDB (snd ?res) = indexedDB s1" "fileData (snd ?res) = fileData s1"
      unfolding r using lf by simp_all
    have fr: "field_records cfg fName (snd ?res) = field_records cfg fName s1"
      using db by (simp add: field_records_def)
    show ?thesis
    proof (cases "fName \<noteq> [] \<and> files \<noteq> [] \<and> isInitialized s")
      case True
      from saveFiles_try_valid [OF _ _ _ t] True obtain news where
        n: "records (indexedDB s1)
              = filter (\<lambda>r. fileId r \<notin> fileId ` set (field_records cfg fName s)) (records (indexedDB s)) @ news"
           "field_records cfg fName s1 = news"
           "\<exists>k < length files. map file_of news = take k files" "fileData s1 = fileData s"
        by auto
      then show ?thesis using er ch db fr True by auto
    next
      case False
      then have "s1 = s\<lparr>error := None, uploadProgress := None\<rparr>"
        using t saveFiles_try_invalid [of fName files cfg s]
              saveFiles_try_uninitialized [of fName files s cfg] by auto
      then show ?thesis using er ch db False by auto
    qed
  qed
  from a b show ?thesis by blast
qed

theorem saveFiles_failure_witness:
  "fst (saveFiles example_cfg ''avatar'' [fileA, unreadable, fileB] after_fileB) = Inl NotReadableError
   \<and> isInitialized after_fileB
   \<and> error (snd (saveFiles example_cfg ''avatar'' [fileA, unreadable, fileB] after_fileB))
        = Some (CtxSaveFiles, NotReadableError)
   \<and> uploadProgress (snd (saveFiles example_cfg ''avatar'' [fileA, unreadable, fileB] after_fileB)) = None
   \<and> fileData (snd (saveFiles example_cfg ''avatar'' [fileA, unreadable, fileB] after_fileB))
        = fileData after_fileB
   \<and> map file_of (records (indexedDB (snd (saveFiles example_cfg ''avatar''
                                            [fileA, unreadable, fileB] after_fileB))))
        = [fileA]
   \<and> fst (saveFiles example_cfg ''avatar'' [] after_fileB) = Inl InvalidSaveArguments"
  using saveFiles_failure [of "''avatar''" "[fileA, unreadable, fileB]" example_cfg after_fileB
          NotReadableError]
        saveFiles_failure [of "''avatar''" "[]" example_cfg after_fileB InvalidSaveArguments]
  by (simp add: after_fileB_eq fileA_def fileB_def unreadable_def file_of_def
        example_state_def example_cfg_def model_defs)

end
